theory Spec2Isabelle
  imports Complex_Main "HOL-Library.Finite_Map"
begin

section \<open>Plain data, objects and the store\<close>

text \<open>
  The module \<^verbatim>\<open>libmproxy/models/flow.py\<close> defines two classes, \<^verbatim>\<open>Error\<close> and
  \<^verbatim>\<open>Flow\<close>. Their instances are mutable objects that refer to one another, so the
  embedding keeps an explicit store: a list of objects, an address being an index into
  it. Allocation appends, so a new address is the length of the store and differs from
  every address in use.
\<close>

type_synonym addr = nat

text \<open>
  The plain nested data that \<^verbatim>\<open>get_state\<close> produces and \<^verbatim>\<open>load_state\<close> consumes.
  A Python \<^verbatim>\<open>dict\<close> with string keys is a finite map; \<^verbatim>\<open>==\<close> on such data is
  equality of the values. Floats are only stored, copied and compared here, never
  computed with, and are carried as reals.
\<close>

datatype pyval =
    PNone
  | PBool bool
  | PInt int
  | PFloat real
  | PStr string
  | PDict "(string, pyval) fmap"

type_synonym pydict = "(string, pyval) fmap"

text \<open>
  \<^verbatim>\<open>class Error\<close>: the attributes set by \<^verbatim>\<open>__init__\<close>. \<^verbatim>\<open>flow\<close> is the
  back-reference to the owning Flow; \<^verbatim>\<open>msg\<close> is \<^verbatim>\<open>None\<close> in the placeholder that
  \<^verbatim>\<open>from_state\<close> builds.
\<close>

record Error =
  flow :: "addr option"
  msg :: "string option"
  timestamp :: real

text \<open>
  The values the attribute \<^verbatim>\<open>live\<close> takes: \<^verbatim>\<open>None\<close> (the default of
  \<^verbatim>\<open>__init__\<close>), a boolean (\<^verbatim>\<open>copy\<close> stores \<^verbatim>\<open>False\<close>), or the live handler object.
\<close>

datatype live_val = LiveNone | LiveBool bool | LiveObj addr

text \<open>
  \<^verbatim>\<open>class Flow\<close>: the attributes set by \<^verbatim>\<open>__init__\<close>. \<^verbatim>\<open>flow_id\<close> is the attribute
  \<^verbatim>\<open>id\<close>, \<^verbatim>\<open>flow_type\<close> is \<^verbatim>\<open>type\<close> and \<^verbatim>\<open>backup\<close> is \<^verbatim>\<open>_backup\<close>. The
  connections, the error, the backup mapping and the reply callable are objects and are
  held by reference.
\<close>

record Flow =
  flow_type :: string
  flow_id :: string
  client_conn :: addr
  server_conn :: addr
  live :: live_val
  error :: "addr option"
  intercepted :: bool
  backup :: "addr option"
  reply :: "addr option"

text \<open>
  The objects of the store. \<^verbatim>\<open>ClientConnection\<close> and \<^verbatim>\<open>ServerConnection\<close> are defined
  in \<^verbatim>\<open>connections.py\<close>, outside this module; a connection object is carried here by its
  full state mapping. \<open>DictO\<close> is a \<^verbatim>\<open>dict\<close> object (a state mapping kept in the backup
  slot). \<open>OtherO\<close> stands for any object this module only passes around: the reply
  callable, the controller, a live handler.
\<close>

datatype obj =
    FlowO Flow
  | ErrorO Error
  | ClientConnO pydict
  | ServerConnO pydict
  | DictO pydict
  | OtherO

text \<open>
  What the module sends to its collaborators. \<^verbatim>\<open>self.reply(Kill)\<close> and
  \<^verbatim>\<open>self.reply()\<close> call the reply object \<open>r\<close> with or without a payload;
  \<^verbatim>\<open>master.handle_error(self)\<close> and its siblings call the controller \<open>m\<close> with the
  flow. Both collaborators are external: each call is recorded, in order, in the trace,
  and is taken to return without touching the store.
\<close>

datatype payload = NoPayload | Kill

datatype event =
    Reply_call addr payload
  | Handle_error addr addr
  | Handle_intercept addr addr
  | Handle_accept_intercept addr addr

text \<open>
  The world a call runs in: the store, the trace of calls to collaborators, and the
  readings of the outside: \<open>clock w n\<close> is what the \<open>n\<close>-th call of
  \<^verbatim>\<open>utils.timestamp()\<close> returns, \<open>uuids w n\<close> what the \<open>n\<close>-th call of
  \<^verbatim>\<open>str(uuid.uuid4())\<close> returns, \<open>IVERSION w\<close> is the constant \<^verbatim>\<open>version.IVERSION\<close>,
  and \<open>client_short w\<close>, \<open>server_short w\<close> are the short views that the two
  connection classes serve of a full state.
\<close>

record world =
  heap :: "obj list"
  trace :: "event list"
  clock :: "nat \<Rightarrow> real"
  ticks :: nat
  uuids :: "nat \<Rightarrow> string"
  draws :: nat
  IVERSION :: int
  client_short :: "pydict \<Rightarrow> pydict"
  server_short :: "pydict \<Rightarrow> pydict"

text \<open>
  How a call ends: it returns a value, or it raises. A raised exception leaves the world
  as it was at the point of the raise, so every operation yields the outcome together with
  the world it leaves behind.
\<close>

datatype exn = TypeError | AttributeError | SchemaError

datatype 'a outcome = Returned 'a | Raised exn

definition lookup :: "world \<Rightarrow> addr \<Rightarrow> obj option" where
  "lookup w a = (if a < length (heap w) then Some (heap w ! a) else None)"

definition alloc :: "obj \<Rightarrow> world \<Rightarrow> addr \<times> world" where
  "alloc ob w = (length (heap w), w\<lparr>heap := heap w @ [ob]\<rparr>)"

definition store :: "addr \<Rightarrow> obj \<Rightarrow> world \<Rightarrow> world" where
  "store a ob w = w\<lparr>heap := (heap w)[a := ob]\<rparr>"

definition the_flow :: "world \<Rightarrow> addr \<Rightarrow> Flow option" where
  "the_flow w a = (case lookup w a of Some (FlowO fl) \<Rightarrow> Some fl | _ \<Rightarrow> None)"

definition the_error :: "world \<Rightarrow> addr \<Rightarrow> Error option" where
  "the_error w a = (case lookup w a of Some (ErrorO e) \<Rightarrow> Some e | _ \<Rightarrow> None)"

definition the_dict :: "world \<Rightarrow> addr \<Rightarrow> pydict option" where
  "the_dict w a = (case lookup w a of Some (DictO d) \<Rightarrow> Some d | _ \<Rightarrow> None)"

definition utils_timestamp :: "world \<Rightarrow> real \<times> world" where
  "utils_timestamp w = (clock w (ticks w), w\<lparr>ticks := Suc (ticks w)\<rparr>)"

definition uuid4_str :: "world \<Rightarrow> string \<times> world" where
  "uuid4_str w = (uuids w (draws w), w\<lparr>draws := Suc (draws w)\<rparr>)"

section \<open>Error\<close>

text \<open>
  \<^verbatim>\<open>Error.__init__(self, msg, timestamp=None)\<close>. \<^verbatim>\<open>timestamp or utils.timestamp()\<close>
  keeps a truthy \<^verbatim>\<open>timestamp\<close> and reads the clock otherwise (for \<^verbatim>\<open>None\<close> and for
  \<^verbatim>\<open>0.0\<close>).
\<close>

definition Error_init :: "string option \<Rightarrow> real option \<Rightarrow> world \<Rightarrow> addr \<times> world" where
  "Error_init m ts w =
     (let (t, w1) = (case ts of
                       Some t \<Rightarrow> if t \<noteq> 0 then (t, w) else utils_timestamp w
                     | None \<Rightarrow> utils_timestamp w)
      in alloc (ErrorO \<lparr>flow = None, msg = m, timestamp = t\<rparr>) w1)"

text \<open>\<^verbatim>\<open>Error.__str__\<close> returns \<^verbatim>\<open>self.msg\<close>.\<close>

definition Error_str :: "Error \<Rightarrow> string option" where
  "Error_str e = msg e"

text \<open>
  \<^verbatim>\<open>Error.copy\<close> is \<^verbatim>\<open>copy.copy(self)\<close>. Neither class of the module defines
  \<^verbatim>\<open>__copy__\<close>, so this is Python's shallow copy: a new object whose attributes are
  those of \<^verbatim>\<open>self\<close>, every one of them.
\<close>

definition Error_copy :: "addr \<Rightarrow> world \<Rightarrow> addr outcome \<times> world" where
  "Error_copy e w =
     (case the_error w e of
        None \<Rightarrow> (Raised AttributeError, w)
      | Some er \<Rightarrow> (let (c, w1) = alloc (ErrorO er) w in (Returned c, w1)))"


section \<open>The state framework\<close>

text \<open>
  \<^verbatim>\<open>Error\<close> and \<^verbatim>\<open>Flow\<close> inherit \<^verbatim>\<open>get_state\<close> and \<^verbatim>\<open>load_state\<close> from
  \<^verbatim>\<open>stateobject.StateObject\<close>, and the connection classes come from
  \<^verbatim>\<open>connections.py\<close>; neither file is part of the module. The declared attributes are
  the module's own \<^verbatim>\<open>_stateobject_attributes\<close>: \<^verbatim>\<open>msg\<close>, \<^verbatim>\<open>timestamp\<close> for an Error
  and \<^verbatim>\<open>id\<close>, \<^verbatim>\<open>error\<close>, \<^verbatim>\<open>client_conn\<close>, \<^verbatim>\<open>server_conn\<close>, \<^verbatim>\<open>type\<close>,
  \<^verbatim>\<open>intercepted\<close> for a Flow.
\<close>

text \<open>
  Modelled from the spec: \<^verbatim>\<open>StateObject.get_state\<close> on an Error, which is missing from
  the sources. It serializes every declared attribute into plain data; no attribute of an
  Error is summarised or omitted in short mode.
\<close>

definition Error_get_state :: "Error \<Rightarrow> pydict" where
  "Error_get_state e =
     fmupd ''msg'' (case msg e of None \<Rightarrow> PNone | Some s \<Rightarrow> PStr s)
       (fmupd ''timestamp'' (PFloat (timestamp e)) fmempty)"

text \<open>
  Modelled from the spec: \<^verbatim>\<open>get_state\<close> of a connection record, which is missing from
  the sources. The full view is the state the record carries, the short view is the
  class's summary of it.
\<close>

definition Conn_get_state :: "world \<Rightarrow> addr \<Rightarrow> bool \<Rightarrow> pydict option" where
  "Conn_get_state w a short =
     (case lookup w a of
        Some (ClientConnO d) \<Rightarrow> Some (if short then client_short w d else d)
      | Some (ServerConnO d) \<Rightarrow> Some (if short then server_short w d else d)
      | _ \<Rightarrow> None)"

text \<open>
  Modelled from the spec: \<^verbatim>\<open>copy()\<close> of a connection record, which is missing from the
  sources: an independent duplicate, that is a new object of the same class with the same
  state.
\<close>

definition Conn_copy :: "addr \<Rightarrow> world \<Rightarrow> addr outcome \<times> world" where
  "Conn_copy a w =
     (case lookup w a of
        Some (ClientConnO d) \<Rightarrow> (let (c, w1) = alloc (ClientConnO d) w in (Returned c, w1))
      | Some (ServerConnO d) \<Rightarrow> (let (c, w1) = alloc (ServerConnO d) w in (Returned c, w1))
      | _ \<Rightarrow> (Raised AttributeError, w))"

text \<open>
  Modelled from the spec: \<^verbatim>\<open>StateObject.get_state\<close> on a Flow, which is missing from
  the sources. Every declared attribute is serialized; the nested Error and connection
  records delegate to their own \<^verbatim>\<open>get_state\<close>; an unset error is \<^verbatim>\<open>None\<close>.
\<close>

definition StateObject_get_state :: "world \<Rightarrow> addr \<Rightarrow> bool \<Rightarrow> pydict outcome" where
  "StateObject_get_state w f short =
     (case the_flow w f of
        None \<Rightarrow> Raised AttributeError
      | Some fl \<Rightarrow>
          (case (Conn_get_state w (client_conn fl) short,
                 Conn_get_state w (server_conn fl) short,
                 (case error fl of
                    None \<Rightarrow> Some PNone
                  | Some e \<Rightarrow> map_option (\<lambda>er. PDict (Error_get_state er)) (the_error w e))) of
             (Some c, Some s, Some e) \<Rightarrow>
               Returned
                 (fmupd ''id'' (PStr (flow_id fl))
                 (fmupd ''error'' e
                 (fmupd ''client_conn'' (PDict c)
                 (fmupd ''server_conn'' (PDict s)
                 (fmupd ''type'' (PStr (flow_type fl))
                 (fmupd ''intercepted'' (PBool (intercepted fl)) fmempty))))))
           | _ \<Rightarrow> Raised AttributeError))"

text \<open>
  Modelled from the spec: the schema check of \<^verbatim>\<open>StateObject.load_state\<close>, which is
  missing from the sources. Every declared attribute must be there with the declared
  shape; the error may be \<^verbatim>\<open>None\<close> or absent; keys that are not declared (the version
  stamp) are ignored.
\<close>

definition Error_schema_ok :: "pydict \<Rightarrow> bool" where
  "Error_schema_ok d =
     ((case fmlookup d ''msg'' of Some (PStr _) \<Rightarrow> True | _ \<Rightarrow> False) \<and>
      (case fmlookup d ''timestamp'' of Some (PFloat _) \<Rightarrow> True | _ \<Rightarrow> False))"

definition Flow_schema_ok :: "pydict \<Rightarrow> bool" where
  "Flow_schema_ok d =
     ((case fmlookup d ''id'' of Some (PStr _) \<Rightarrow> True | _ \<Rightarrow> False) \<and>
      (case fmlookup d ''type'' of Some (PStr _) \<Rightarrow> True | _ \<Rightarrow> False) \<and>
      (case fmlookup d ''intercepted'' of Some (PBool _) \<Rightarrow> True | _ \<Rightarrow> False) \<and>
      (case fmlookup d ''client_conn'' of Some (PDict _) \<Rightarrow> True | _ \<Rightarrow> False) \<and>
      (case fmlookup d ''server_conn'' of Some (PDict _) \<Rightarrow> True | _ \<Rightarrow> False) \<and>
      (case fmlookup d ''error'' of
         None \<Rightarrow> True | Some PNone \<Rightarrow> True | Some (PDict e) \<Rightarrow> Error_schema_ok e
       | _ \<Rightarrow> False))"

text \<open>Reading a validated entry of a state mapping back into an attribute value.\<close>

definition str_of :: "pyval option \<Rightarrow> string" where
  "str_of v = (case v of Some (PStr s) \<Rightarrow> s | _ \<Rightarrow> [])"

definition bool_of :: "pyval option \<Rightarrow> bool" where
  "bool_of v = (case v of Some (PBool b) \<Rightarrow> b | _ \<Rightarrow> False)"

definition float_of :: "pyval option \<Rightarrow> real" where
  "float_of v = (case v of Some (PFloat x) \<Rightarrow> x | _ \<Rightarrow> 0)"

definition dict_of :: "pyval option \<Rightarrow> pydict" where
  "dict_of v = (case v of Some (PDict d) \<Rightarrow> d | _ \<Rightarrow> fmempty)"

text \<open>
  Modelled from the spec: \<^verbatim>\<open>StateObject.load_state\<close> on an Error, which is missing from
  the sources. It validates the mapping, then sets the declared attributes in place; on a
  schema error the receiver is left as it was.
\<close>

definition Error_load_state :: "pydict \<Rightarrow> addr \<Rightarrow> world \<Rightarrow> unit outcome \<times> world" where
  "Error_load_state d e w =
     (case the_error w e of
        None \<Rightarrow> (Raised AttributeError, w)
      | Some er \<Rightarrow>
          if \<not> Error_schema_ok d then (Raised SchemaError, w)
          else (Returned (),
                store e (ErrorO (er\<lparr>msg := Some (str_of (fmlookup d ''msg'')),
                                     timestamp := float_of (fmlookup d ''timestamp'')\<rparr>)) w))"

text \<open>
  \<^verbatim>\<open>Error.from_state(cls, state)\<close>: \<^verbatim>\<open>f = cls(None)\<close>, \<^verbatim>\<open>f.load_state(state)\<close>,
  \<^verbatim>\<open>return f\<close>. The placeholder has no message and reads the clock.
\<close>

definition Error_from_state :: "pydict \<Rightarrow> world \<Rightarrow> addr outcome \<times> world" where
  "Error_from_state d w =
     (let (e, w1) = Error_init None None w
      in case Error_load_state d e w1 of
           (Raised x, w2) \<Rightarrow> (Raised x, w2)
         | (Returned _, w2) \<Rightarrow> (Returned e, w2))"

text \<open>
  Modelled from the spec: \<^verbatim>\<open>StateObject.load_state\<close> on a Flow, which is missing from
  the sources. The mapping is validated in full before any attribute is applied; then the
  flow is mutated in place: the scalar attributes are set, and the nested records are
  reconstructed through their own restore path (a connection record from its mapping, an
  Error through \<^verbatim>\<open>Error.from_state\<close>). Attributes that are not declared (\<^verbatim>\<open>live\<close>,
  \<^verbatim>\<open>_backup\<close>, \<^verbatim>\<open>reply\<close>) are not touched.
\<close>

definition StateObject_load_state :: "pydict \<Rightarrow> addr \<Rightarrow> world \<Rightarrow> unit outcome \<times> world" where
  "StateObject_load_state d f w =
     (case the_flow w f of
        None \<Rightarrow> (Raised AttributeError, w)
      | Some fl \<Rightarrow>
          if \<not> Flow_schema_ok d then (Raised SchemaError, w)
          else
            (let (cc, w1) = alloc (ClientConnO (dict_of (fmlookup d ''client_conn''))) w;
                 (sc, w2) = alloc (ServerConnO (dict_of (fmlookup d ''server_conn''))) w1;
                 fl1 = fl\<lparr>flow_id := str_of (fmlookup d ''id''),
                          flow_type := str_of (fmlookup d ''type''),
                          intercepted := bool_of (fmlookup d ''intercepted''),
                          client_conn := cc, server_conn := sc\<rparr>
             in case fmlookup d ''error'' of
                  Some (PDict ed) \<Rightarrow>
                    (case Error_from_state ed w2 of
                       (Raised x, w3) \<Rightarrow> (Raised x, w3)
                     | (Returned e, w3) \<Rightarrow>
                         (Returned (), store f (FlowO (fl1\<lparr>error := Some e\<rparr>)) w3))
                | _ \<Rightarrow> (Returned (), store f (FlowO (fl1\<lparr>error := None\<rparr>)) w2)))"

section \<open>Flow\<close>

text \<open>
  \<^verbatim>\<open>Flow.__init__(self, type, client_conn, server_conn, live=None)\<close>.
\<close>

definition Flow_init :: "string \<Rightarrow> addr \<Rightarrow> addr \<Rightarrow> live_val \<Rightarrow> world \<Rightarrow> addr \<times> world" where
  "Flow_init ty cc sc lv w =
     (let (u, w1) = uuid4_str w
      in alloc (FlowO \<lparr>flow_type = ty, flow_id = u, client_conn = cc, server_conn = sc,
                       live = lv, error = None, intercepted = False, backup = None,
                       reply = None\<rparr>) w1)"

text \<open>
  The value of \<^verbatim>\<open>self._backup\<close>: \<^verbatim>\<open>None\<close>, or the mapping that the slot refers to. A
  slot that refers to something other than a mapping makes the operations below raise.
\<close>

definition backup_value :: "world \<Rightarrow> Flow \<Rightarrow> pydict option outcome" where
  "backup_value w fl =
     (case backup fl of
        None \<Rightarrow> Returned None
      | Some b \<Rightarrow> (case the_dict w b of None \<Rightarrow> Raised TypeError | Some d \<Rightarrow> Returned (Some d)))"

text \<open>Python's truth value of \<^verbatim>\<open>self._backup\<close>: \<^verbatim>\<open>None\<close> and the empty mapping are false.\<close>

definition truthy :: "pydict option \<Rightarrow> bool" where
  "truthy b = (case b of None \<Rightarrow> False | Some d \<Rightarrow> d \<noteq> fmempty)"

text \<open>
  \<^verbatim>\<open>Flow.get_state(self, short=False)\<close>:
  \<^verbatim>\<open>d = super(Flow, self).get_state(short)\<close>, \<^verbatim>\<open>d.update(version=version.IVERSION)\<close>,
  then, if \<^verbatim>\<open>self._backup and self._backup != d\<close>, \<^verbatim>\<open>d.update(modified=True)\<close> in
  short mode and \<^verbatim>\<open>d.update(backup=self._backup)\<close> otherwise.
\<close>

definition Flow_get_state :: "world \<Rightarrow> addr \<Rightarrow> bool \<Rightarrow> pydict outcome" where
  "Flow_get_state w f short =
     (case the_flow w f of
        None \<Rightarrow> Raised AttributeError
      | Some fl \<Rightarrow>
          (case StateObject_get_state w f short of
             Raised x \<Rightarrow> Raised x
           | Returned d0 \<Rightarrow>
               (let d = fmupd ''version'' (PInt (IVERSION w)) d0
                in case backup_value w fl of
                     Raised x \<Rightarrow> Raised x
                   | Returned b \<Rightarrow>
                       if truthy b \<and> b \<noteq> Some d
                       then (if short then Returned (fmupd ''modified'' (PBool True) d)
                             else Returned (fmupd ''backup'' (PDict (the b)) d))
                       else Returned d)))"


text \<open>
  \<^verbatim>\<open>Flow.copy\<close>: \<^verbatim>\<open>f = copy.copy(self)\<close> is a new object with the attributes of
  \<^verbatim>\<open>self\<close>; then \<^verbatim>\<open>id\<close>, \<^verbatim>\<open>live\<close>, \<^verbatim>\<open>client_conn\<close>, \<^verbatim>\<open>server_conn\<close> and, if
  \<^verbatim>\<open>self.error\<close> is set, \<^verbatim>\<open>error\<close> are assigned, in this order. (An Error object is
  truthy: the module defines neither \<^verbatim>\<open>__bool__\<close> nor \<^verbatim>\<open>__len__\<close> for it.) A
  connection that is not a connection object has no \<^verbatim>\<open>copy\<close>, and the call raises with
  the new flow half built.
\<close>

definition Flow_copy :: "addr \<Rightarrow> world \<Rightarrow> addr outcome \<times> world" where
  "Flow_copy self w =
     (case the_flow w self of
        None \<Rightarrow> (Raised AttributeError, w)
      | Some fl \<Rightarrow>
          (let (f, w1) = alloc (FlowO fl) w;
               (u, w2) = uuid4_str w1;
               fl1 = fl\<lparr>flow_id := u, live := LiveBool False\<rparr>;
               w3 = store f (FlowO fl1) w2
           in case Conn_copy (client_conn fl) w3 of
                (Raised x, w4) \<Rightarrow> (Raised x, w4)
              | (Returned cc, w4) \<Rightarrow>
                  (let fl2 = fl1\<lparr>client_conn := cc\<rparr>;
                       w5 = store f (FlowO fl2) w4
                   in case Conn_copy (server_conn fl) w5 of
                        (Raised x, w6) \<Rightarrow> (Raised x, w6)
                      | (Returned sc, w6) \<Rightarrow>
                          (let fl3 = fl2\<lparr>server_conn := sc\<rparr>;
                               w7 = store f (FlowO fl3) w6
                           in case error fl of
                                None \<Rightarrow> (Returned f, w7)
                              | Some e \<Rightarrow>
                                  (case Error_copy e w7 of
                                     (Raised x, w8) \<Rightarrow> (Raised x, w8)
                                   | (Returned ec, w8) \<Rightarrow>
                                       (Returned f,
                                        store f (FlowO (fl3\<lparr>error := Some ec\<rparr>)) w8))))))"

text \<open>
  \<^verbatim>\<open>Flow.modified\<close>: if \<^verbatim>\<open>self._backup\<close> is truthy,
  \<^verbatim>\<open>self._backup != self.get_state()\<close>, else \<^verbatim>\<open>False\<close>.
\<close>

definition Flow_modified :: "addr \<Rightarrow> world \<Rightarrow> bool outcome" where
  "Flow_modified f w =
     (case the_flow w f of
        None \<Rightarrow> Raised AttributeError
      | Some fl \<Rightarrow>
          (case backup_value w fl of
             Raised x \<Rightarrow> Raised x
           | Returned b \<Rightarrow>
               if truthy b
               then (case Flow_get_state w f False of
                       Raised x \<Rightarrow> Raised x
                     | Returned d \<Rightarrow> Returned (the b \<noteq> d))
               else Returned False))"

text \<open>
  \<^verbatim>\<open>Flow.backup(self, force=False)\<close>: \<^verbatim>\<open>if not self._backup: self._backup =
  self.get_state()\<close>. The body never reads \<^verbatim>\<open>force\<close>.
\<close>

definition Flow_backup :: "bool \<Rightarrow> addr \<Rightarrow> world \<Rightarrow> unit outcome \<times> world" where
  "Flow_backup force f w =
     (case the_flow w f of
        None \<Rightarrow> (Raised AttributeError, w)
      | Some fl \<Rightarrow>
          (case backup_value w fl of
             Raised x \<Rightarrow> (Raised x, w)
           | Returned b \<Rightarrow>
               if \<not> truthy b
               then (case Flow_get_state w f False of
                       Raised x \<Rightarrow> (Raised x, w)
                     | Returned d \<Rightarrow>
                         (let (a, w1) = alloc (DictO d) w
                          in (Returned (), store f (FlowO (fl\<lparr>backup := Some a\<rparr>)) w1)))
               else (Returned (), w)))"

text \<open>
  \<^verbatim>\<open>Flow.revert\<close>: if \<^verbatim>\<open>self._backup\<close> is truthy, \<^verbatim>\<open>self.load_state(self._backup)\<close>
  and then \<^verbatim>\<open>self._backup = None\<close>.
\<close>

definition Flow_revert :: "addr \<Rightarrow> world \<Rightarrow> unit outcome \<times> world" where
  "Flow_revert f w =
     (case the_flow w f of
        None \<Rightarrow> (Raised AttributeError, w)
      | Some fl \<Rightarrow>
          (case backup_value w fl of
             Raised x \<Rightarrow> (Raised x, w)
           | Returned b \<Rightarrow>
               if truthy b
               then (case StateObject_load_state (the b) f w of
                       (Raised x, w1) \<Rightarrow> (Raised x, w1)
                     | (Returned _, w1) \<Rightarrow>
                         (case the_flow w1 f of
                            None \<Rightarrow> (Raised AttributeError, w1)
                          | Some fl1 \<Rightarrow>
                              (Returned (), store f (FlowO (fl1\<lparr>backup := None\<rparr>)) w1)))
               else (Returned (), w)))"

section \<open>Interception\<close>

text \<open>
  Calling \<^verbatim>\<open>self.reply\<close>: \<^verbatim>\<open>None\<close> is not callable and raises \<^verbatim>\<open>TypeError\<close>; a reply
  object is called with the payload.
\<close>

definition call_reply :: "addr option \<Rightarrow> payload \<Rightarrow> world \<Rightarrow> unit outcome \<times> world" where
  "call_reply r p w =
     (case r of
        None \<Rightarrow> (Raised TypeError, w)
      | Some c \<Rightarrow> (Returned (), w\<lparr>trace := trace w @ [Reply_call c p]\<rparr>))"

definition notify :: "event \<Rightarrow> world \<Rightarrow> world" where
  "notify ev w = w\<lparr>trace := trace w @ [ev]\<rparr>"

text \<open>
  \<^verbatim>\<open>Flow.kill(self, master)\<close>: \<^verbatim>\<open>self.error = Error("Connection killed")\<close>,
  \<^verbatim>\<open>self.intercepted = False\<close>, \<^verbatim>\<open>self.reply(Kill)\<close>,
  \<^verbatim>\<open>master.handle_error(self)\<close>, with no test before any of them.
\<close>

definition Flow_kill :: "addr \<Rightarrow> addr \<Rightarrow> world \<Rightarrow> unit outcome \<times> world" where
  "Flow_kill master f w =
     (case the_flow w f of
        None \<Rightarrow> (Raised AttributeError, w)
      | Some fl \<Rightarrow>
          (let (e, w1) = Error_init (Some ''Connection killed'') None w;
               fl1 = fl\<lparr>error := Some e\<rparr>;
               w2 = store f (FlowO fl1) w1;
               fl2 = fl1\<lparr>intercepted := False\<rparr>;
               w3 = store f (FlowO fl2) w2
           in case call_reply (reply fl2) Kill w3 of
                (Raised x, w4) \<Rightarrow> (Raised x, w4)
              | (Returned _, w4) \<Rightarrow> (Returned (), notify (Handle_error master f) w4)))"

text \<open>
  \<^verbatim>\<open>Flow.intercept(self, master)\<close>: return at once if \<^verbatim>\<open>self.intercepted\<close>; else set it
  and call \<^verbatim>\<open>master.handle_intercept(self)\<close>.
\<close>

definition Flow_intercept :: "addr \<Rightarrow> addr \<Rightarrow> world \<Rightarrow> unit outcome \<times> world" where
  "Flow_intercept master f w =
     (case the_flow w f of
        None \<Rightarrow> (Raised AttributeError, w)
      | Some fl \<Rightarrow>
          if intercepted fl then (Returned (), w)
          else (let w1 = store f (FlowO (fl\<lparr>intercepted := True\<rparr>)) w
                in (Returned (), notify (Handle_intercept master f) w1)))"

text \<open>
  \<^verbatim>\<open>Flow.accept_intercept(self, master)\<close>: return at once if not
  \<^verbatim>\<open>self.intercepted\<close>; else clear it, call \<^verbatim>\<open>self.reply()\<close> and
  \<^verbatim>\<open>master.handle_accept_intercept(self)\<close>.
\<close>

definition Flow_accept_intercept :: "addr \<Rightarrow> addr \<Rightarrow> world \<Rightarrow> unit outcome \<times> world" where
  "Flow_accept_intercept master f w =
     (case the_flow w f of
        None \<Rightarrow> (Raised AttributeError, w)
      | Some fl \<Rightarrow>
          if \<not> intercepted fl then (Returned (), w)
          else (let fl1 = fl\<lparr>intercepted := False\<rparr>;
                    w1 = store f (FlowO fl1) w
                in case call_reply (reply fl1) NoPayload w1 of
                     (Raised x, w2) \<Rightarrow> (Raised x, w2)
                   | (Returned _, w2) \<Rightarrow>
                       (Returned (), notify (Handle_accept_intercept master f) w2)))"


section \<open>Notions used in the statements\<close>

text \<open>
  A flow is well formed in a store when \<^verbatim>\<open>client_conn\<close> refers to a client connection,
  \<^verbatim>\<open>server_conn\<close> to a server connection and \<^verbatim>\<open>error\<close>, if set, to an Error: these
  are the types the docstrings of \<^verbatim>\<open>Flow.__init__\<close> give.
\<close>

definition Flow_ok :: "world \<Rightarrow> Flow \<Rightarrow> bool" where
  "Flow_ok w fl =
     ((case lookup w (client_conn fl) of Some (ClientConnO _) \<Rightarrow> True | _ \<Rightarrow> False) \<and>
      (case lookup w (server_conn fl) of Some (ServerConnO _) \<Rightarrow> True | _ \<Rightarrow> False) \<and>
      (case error fl of None \<Rightarrow> True | Some e \<Rightarrow> the_error w e \<noteq> None))"

text \<open>
  The mapping with the six declared attributes of a Flow, as
  \<open>StateObject_get_state\<close> builds it.
\<close>

definition flow_state :: "string \<Rightarrow> pyval \<Rightarrow> pydict \<Rightarrow> pydict \<Rightarrow> string \<Rightarrow> bool \<Rightarrow> pydict" where
  "flow_state i e c s t b =
     fmupd ''id'' (PStr i)
     (fmupd ''error'' e
     (fmupd ''client_conn'' (PDict c)
     (fmupd ''server_conn'' (PDict s)
     (fmupd ''type'' (PStr t)
     (fmupd ''intercepted'' (PBool b) fmempty)))))"

section \<open>A concrete world\<close>

text \<open>
  A store with a client connection at address 0, a server connection at 1, a flow at 2
  whose reply callable is the object at 3, and a controller at 4. It is the input of the
  examples below.
\<close>


definition ex_flow :: Flow where
  "ex_flow = \<lparr>flow_type = ''http'', flow_id = ''id-0'', client_conn = 0, server_conn = 1,
              live = LiveBool True, error = None, intercepted = False, backup = None,
              reply = Some 3\<rparr>"

definition ex_world :: world where
  "ex_world = \<lparr>heap = [ClientConnO (fmupd ''address'' (PStr ''10.0.0.1'') fmempty),
                       ServerConnO (fmupd ''address'' (PStr ''10.0.0.2'') fmempty),
                       FlowO ex_flow, OtherO, OtherO],
               trace = [], clock = (\<lambda>n. 1000 + real n), ticks = 0,
               uuids = (\<lambda>n. ''id-'' @ replicate (Suc n) CHR ''x''), draws = 0, IVERSION = 1,
               client_short = (\<lambda>d. d), server_short = (\<lambda>d. d)\<rparr>"

text \<open>
  \<open>ex_killed\<close> is the concrete world after \<^verbatim>\<open>kill(master)\<close> on the flow at 2, and
  \<open>ex_fresh\<close> the concrete world after the construction of one more flow, at address 5,
  by \<^verbatim>\<open>Flow("http", client_conn, server_conn)\<close>.
\<close>

definition ex_killed :: world where
  "ex_killed = snd (Flow_kill 4 2 ex_world)"

definition ex_fresh :: world where
  "ex_fresh = snd (Flow_init ''http'' 0 1 LiveNone ex_world)"


text \<open>
  \<open>ex_owned\<close> is the concrete world with one more object, at address 5: an Error whose
  back-reference is the flow at 2. \<open>ex_state\<close> is the full state of the flow at 2 of
  the concrete world; \<open>ex_backed\<close> is that world after \<^verbatim>\<open>backup()\<close> on the flow, and
  \<open>ex_edited\<close> the same after the assignment \<^verbatim>\<open>flow.intercepted = True\<close>.
\<close>

definition ex_owned :: world where
  "ex_owned = snd (alloc (ErrorO \<lparr>flow = Some 2, msg = Some ''timeout'', timestamp = 1000\<rparr>) ex_world)"

definition ex_state :: pydict where
  "ex_state = flow_state ''id-0'' PNone (fmupd ''address'' (PStr ''10.0.0.1'') fmempty)
                (fmupd ''address'' (PStr ''10.0.0.2'') fmempty) ''http'' False"

definition ex_backed :: world where
  "ex_backed = snd (Flow_backup False 2 ex_world)"

definition ex_edited :: world where
  "ex_edited = store 2 (FlowO (ex_flow\<lparr>backup := Some 5, intercepted := True\<rparr>)) ex_backed"

text \<open>
  \<open>ex_reset\<close> is \<open>ex_edited\<close> after the assignment \<^verbatim>\<open>flow.intercepted = False\<close>, which
  gives the attribute the value that the backup holds. \<open>ex_blank\<close> is the concrete world
  after \<^verbatim>\<open>flow.error = Error(None)\<close> on the flow at 2 (the new Error is at address 5 and
  has no message), \<open>ex_blank_state b\<close> is the full state of that flow when
  \<^verbatim>\<open>intercepted\<close> is \<open>b\<close>, and \<open>ex_blank_edited\<close> is \<open>ex_blank\<close> after \<^verbatim>\<open>backup()\<close>
  and then \<^verbatim>\<open>flow.intercepted = True\<close>. \<open>ex_repeat\<close> is the concrete world with a
  generator that yields the id of the flow at 2 again.
\<close>

definition ex_reset :: world where
  "ex_reset = store 2 (FlowO (ex_flow\<lparr>backup := Some 5, intercepted := False\<rparr>)) ex_edited"

definition ex_blank :: world where
  "ex_blank = store 2 (FlowO (ex_flow\<lparr>error := Some 5\<rparr>)) (snd (Error_init None None ex_world))"

definition ex_blank_state :: "bool \<Rightarrow> pydict" where
  "ex_blank_state b =
     flow_state ''id-0'' (PDict (Error_get_state \<lparr>flow = None, msg = None, timestamp = 1000\<rparr>))
       (fmupd ''address'' (PStr ''10.0.0.1'') fmempty)
       (fmupd ''address'' (PStr ''10.0.0.2'') fmempty) ''http'' b"

definition ex_blank_edited :: world where
  "ex_blank_edited =
     store 2 (FlowO (ex_flow\<lparr>error := Some 5, backup := Some 6, intercepted := True\<rparr>))
       (snd (Flow_backup False 2 ex_blank))"


section \<open>The store: reading after writing\<close>


lemma lookup_store: "lookup (store a ob w) b = (if a = b \<and> b < length (heap w) then Some ob else lookup w b)"
  by (auto simp: lookup_def store_def)

lemma lookup_alloc: "lookup (snd (alloc ob w)) b = (if b = length (heap w) then Some ob else lookup w b)"
  by (auto simp: lookup_def alloc_def nth_append)

lemma fst_alloc: "fst (alloc ob w) = length (heap w)"
  by (simp add: alloc_def)

lemma length_alloc: "length (heap (snd (alloc ob w))) = Suc (length (heap w))"
  by (simp add: alloc_def)

lemma length_store: "length (heap (store a ob w)) = length (heap w)"
  by (simp add: store_def)

lemma alloc_fields:
  "trace (snd (alloc ob w)) = trace w" "clock (snd (alloc ob w)) = clock w"
  "ticks (snd (alloc ob w)) = ticks w" "uuids (snd (alloc ob w)) = uuids w"
  "draws (snd (alloc ob w)) = draws w" "IVERSION (snd (alloc ob w)) = IVERSION w"
  "client_short (snd (alloc ob w)) = client_short w"
  "server_short (snd (alloc ob w)) = server_short w"
  by (simp_all add: alloc_def)

lemma store_fields:
  "trace (store a ob w) = trace w" "clock (store a ob w) = clock w"
  "ticks (store a ob w) = ticks w" "uuids (store a ob w) = uuids w"
  "draws (store a ob w) = draws w" "IVERSION (store a ob w) = IVERSION w"
  "client_short (store a ob w) = client_short w"
  "server_short (store a ob w) = server_short w"
  by (simp_all add: store_def)

lemma timestamp_fields:
  "fst (utils_timestamp w) = clock w (ticks w)"
  "heap (snd (utils_timestamp w)) = heap w" "trace (snd (utils_timestamp w)) = trace w"
  "clock (snd (utils_timestamp w)) = clock w" "ticks (snd (utils_timestamp w)) = Suc (ticks w)"
  "uuids (snd (utils_timestamp w)) = uuids w" "draws (snd (utils_timestamp w)) = draws w"
  "IVERSION (snd (utils_timestamp w)) = IVERSION w"
  "client_short (snd (utils_timestamp w)) = client_short w"
  "server_short (snd (utils_timestamp w)) = server_short w"
  by (simp_all add: utils_timestamp_def)

lemma lookup_timestamp: "lookup (snd (utils_timestamp w)) a = lookup w a"
  by (simp add: lookup_def utils_timestamp_def)

lemma uuid_fields:
  "fst (uuid4_str w) = uuids w (draws w)"
  "heap (snd (uuid4_str w)) = heap w" "trace (snd (uuid4_str w)) = trace w"
  "clock (snd (uuid4_str w)) = clock w" "ticks (snd (uuid4_str w)) = ticks w"
  "uuids (snd (uuid4_str w)) = uuids w" "draws (snd (uuid4_str w)) = Suc (draws w)"
  "IVERSION (snd (uuid4_str w)) = IVERSION w"
  "client_short (snd (uuid4_str w)) = client_short w"
  "server_short (snd (uuid4_str w)) = server_short w"
  by (simp_all add: uuid4_str_def)

lemma lookup_uuid: "lookup (snd (uuid4_str w)) a = lookup w a"
  by (simp add: lookup_def uuid4_str_def)

lemma notify_fields:
  "heap (notify ev w) = heap w" "trace (notify ev w) = trace w @ [ev]"
  "clock (notify ev w) = clock w" "ticks (notify ev w) = ticks w"
  "uuids (notify ev w) = uuids w" "draws (notify ev w) = draws w"
  "IVERSION (notify ev w) = IVERSION w"
  by (simp_all add: notify_def)

lemma lookup_notify: "lookup (notify ev w) a = lookup w a"
  by (simp add: lookup_def notify_def)

lemma lookup_trace_upd: "lookup (w\<lparr>trace := t\<rparr>) a = lookup w a"
  by (simp add: lookup_def)

lemma lookup_Some_less: "lookup w a = Some ob \<Longrightarrow> a < length (heap w)"
  by (auto simp: lookup_def split: if_splits)

lemma the_flow_lookup: "the_flow w a = Some fl \<longleftrightarrow> lookup w a = Some (FlowO fl)"
  by (auto simp: the_flow_def split: option.splits obj.splits)

lemma the_error_lookup: "the_error w a = Some er \<longleftrightarrow> lookup w a = Some (ErrorO er)"
  by (auto simp: the_error_def split: option.splits obj.splits)

lemma the_dict_lookup: "the_dict w a = Some d \<longleftrightarrow> lookup w a = Some (DictO d)"
  by (auto simp: the_dict_def split: option.splits obj.splits)

lemma the_flow_store:
  "the_flow (store a ob w) b =
     (if a = b \<and> b < length (heap w) then (case ob of FlowO fl \<Rightarrow> Some fl | _ \<Rightarrow> None)
      else the_flow w b)"
  by (simp add: the_flow_def lookup_store)

lemma the_error_store:
  "the_error (store a ob w) b =
     (if a = b \<and> b < length (heap w) then (case ob of ErrorO e \<Rightarrow> Some e | _ \<Rightarrow> None)
      else the_error w b)"
  by (simp add: the_error_def lookup_store)

lemma the_dict_store:
  "the_dict (store a ob w) b =
     (if a = b \<and> b < length (heap w) then (case ob of DictO d \<Rightarrow> Some d | _ \<Rightarrow> None)
      else the_dict w b)"
  by (simp add: the_dict_def lookup_store)

lemma the_flow_alloc:
  "the_flow (snd (alloc ob w)) b =
     (if b = length (heap w) then (case ob of FlowO fl \<Rightarrow> Some fl | _ \<Rightarrow> None)
      else the_flow w b)"
  by (simp add: the_flow_def lookup_alloc)

lemma the_error_alloc:
  "the_error (snd (alloc ob w)) b =
     (if b = length (heap w) then (case ob of ErrorO e \<Rightarrow> Some e | _ \<Rightarrow> None)
      else the_error w b)"
  by (simp add: the_error_def lookup_alloc)

lemma the_dict_alloc:
  "the_dict (snd (alloc ob w)) b =
     (if b = length (heap w) then (case ob of DictO d \<Rightarrow> Some d | _ \<Rightarrow> None)
      else the_dict w b)"
  by (simp add: the_dict_def lookup_alloc)

lemma the_timestamp:
  "the_flow (snd (utils_timestamp w)) a = the_flow w a"
  "the_error (snd (utils_timestamp w)) a = the_error w a"
  "the_dict (snd (utils_timestamp w)) a = the_dict w a"
  by (simp_all add: the_flow_def the_error_def the_dict_def lookup_timestamp)

lemma the_uuid:
  "the_flow (snd (uuid4_str w)) a = the_flow w a"
  "the_error (snd (uuid4_str w)) a = the_error w a"
  "the_dict (snd (uuid4_str w)) a = the_dict w a"
  by (simp_all add: the_flow_def the_error_def the_dict_def lookup_uuid)

lemma the_notify:
  "the_flow (notify ev w) a = the_flow w a"
  "the_error (notify ev w) a = the_error w a"
  "the_dict (notify ev w) a = the_dict w a"
  by (simp_all add: the_flow_def the_error_def the_dict_def lookup_notify)

lemma the_trace_upd:
  "the_flow (w\<lparr>trace := t\<rparr>) a = the_flow w a"
  "the_error (w\<lparr>trace := t\<rparr>) a = the_error w a"
  "the_dict (w\<lparr>trace := t\<rparr>) a = the_dict w a"
  by (simp_all add: the_flow_def the_error_def the_dict_def lookup_trace_upd)

lemmas heap_simps = lookup_store lookup_alloc fst_alloc length_alloc length_store alloc_fields
  store_fields timestamp_fields lookup_timestamp uuid_fields lookup_uuid notify_fields
  lookup_notify lookup_trace_upd the_flow_store the_error_store the_dict_store the_flow_alloc
  the_error_alloc the_dict_alloc the_timestamp the_uuid the_notify the_trace_upd

lemma the_flow_less: "the_flow w a = Some fl \<Longrightarrow> a < length (heap w)"
  by (auto simp: the_flow_lookup dest: lookup_Some_less)

lemma the_error_less: "the_error w a = Some er \<Longrightarrow> a < length (heap w)"
  by (auto simp: the_error_lookup dest: lookup_Some_less)


section \<open>kill\<close>

lemma Error_init_eq:
  "Error_init (Some m) None w =
     (length (heap w),
      snd (alloc (ErrorO \<lparr>flow = None, msg = Some m, timestamp = clock w (ticks w)\<rparr>)
             (snd (utils_timestamp w))))"
  by (simp add: Error_init_def split_def timestamp_fields fst_alloc Let_def prod_eq_iff)

lemma Flow_kill_effect:
  assumes "the_flow w f = Some fl"
  shows "\<exists>w'. Flow_kill master f w =
            ((case reply fl of None \<Rightarrow> Raised TypeError | Some r \<Rightarrow> Returned ()), w') \<and>
          the_flow w' f = Some (fl\<lparr>error := Some (length (heap w)), intercepted := False\<rparr>) \<and>
          the_error w' (length (heap w)) =
            Some \<lparr>flow = None, msg = Some ''Connection killed'', timestamp = clock w (ticks w)\<rparr> \<and>
          trace w' = trace w @ (case reply fl of None \<Rightarrow> []
                                | Some r \<Rightarrow> [Reply_call r Kill, Handle_error master f]) \<and>
          length (heap w') = Suc (length (heap w)) \<and>
          (\<forall>a. a \<noteq> f \<longrightarrow> a < length (heap w) \<longrightarrow> lookup w' a = lookup w a) \<and>
          clock w' = clock w \<and> ticks w' = Suc (ticks w)"
proof -
  have lt: "f < length (heap w)" using assms by (rule the_flow_less)
  show ?thesis
  proof (cases "reply fl")
    case None
    with assms lt show ?thesis
      by (simp add: Flow_kill_def Error_init_eq Let_def call_reply_def heap_simps)
  next
    case (Some r)
    with assms lt show ?thesis
      by (simp add: Flow_kill_def Error_init_eq Let_def call_reply_def heap_simps)
  qed
qed


lemma ex_flow_at: "the_flow ex_world 2 = Some ex_flow"
  by (simp add: the_flow_def lookup_def ex_world_def)

lemma ex_world_fields:
  "length (heap ex_world) = 5" "trace ex_world = []" "ticks ex_world = 0"
  "clock ex_world = (\<lambda>n. 1000 + real n)" "draws ex_world = 0" "IVERSION ex_world = 1"
  "uuids ex_world 0 = ''id-x''"
  by (simp_all add: ex_world_def)

lemma ex_world_conns:
  "lookup ex_world 0 = Some (ClientConnO (fmupd ''address'' (PStr ''10.0.0.1'') fmempty))"
  "lookup ex_world (Suc 0) = Some (ServerConnO (fmupd ''address'' (PStr ''10.0.0.2'') fmempty))"
  by (simp_all add: lookup_def ex_world_def)

lemma ex_flow_fields:
  "reply ex_flow = Some 3" "error ex_flow = None" "intercepted ex_flow = False"
  "backup ex_flow = None" "client_conn ex_flow = 0" "server_conn ex_flow = 1"
  "flow_id ex_flow = ''id-0''" "flow_type ex_flow = ''http''" "live ex_flow = LiveBool True"
  by (simp_all add: ex_flow_def)

lemma Flow_init_effect:
  "fst (Flow_init ty cc sc lv w) = length (heap w)"
  "the_flow (snd (Flow_init ty cc sc lv w)) (length (heap w)) =
     Some \<lparr>flow_type = ty, flow_id = uuids w (draws w), client_conn = cc, server_conn = sc,
           live = lv, error = None, intercepted = False, backup = None, reply = None\<rparr>"
  "length (heap (snd (Flow_init ty cc sc lv w))) = Suc (length (heap w))"
  "trace (snd (Flow_init ty cc sc lv w)) = trace w"
  by (simp_all add: Flow_init_def split_def heap_simps)

lemma Flow_kill_returns:
  assumes "the_flow w f = Some fl" and "reply fl = Some r"
  shows "fst (Flow_kill master f w) = Returned ()"
    and "the_flow (snd (Flow_kill master f w)) f =
           Some (fl\<lparr>error := Some (length (heap w)), intercepted := False\<rparr>)"
    and "the_error (snd (Flow_kill master f w)) (length (heap w)) =
           Some \<lparr>flow = None, msg = Some ''Connection killed'', timestamp = clock w (ticks w)\<rparr>"
    and "trace (snd (Flow_kill master f w)) =
           trace w @ [Reply_call r Kill, Handle_error master f]"
    and "length (heap (snd (Flow_kill master f w))) = Suc (length (heap w))"
    and "clock (snd (Flow_kill master f w)) = clock w"
    and "ticks (snd (Flow_kill master f w)) = Suc (ticks w)"
  using Flow_kill_effect[OF assms(1), of master] assms(2) by auto

lemma Flow_kill_raises:
  assumes "the_flow w f = Some fl" and "reply fl = None"
  shows "fst (Flow_kill master f w) = Raised TypeError"
    and "the_flow (snd (Flow_kill master f w)) f =
           Some (fl\<lparr>error := Some (length (heap w)), intercepted := False\<rparr>)"
    and "the_error (snd (Flow_kill master f w)) (length (heap w)) =
           Some \<lparr>flow = None, msg = Some ''Connection killed'', timestamp = clock w (ticks w)\<rparr>"
    and "trace (snd (Flow_kill master f w)) = trace w"
    and "length (heap (snd (Flow_kill master f w))) = Suc (length (heap w))"
  using Flow_kill_effect[OF assms(1), of master] assms(2) by auto

text \<open>
  C7. The first \<^verbatim>\<open>kill()\<close> on a flow that has a reply continuation attached returns;
  it sets \<^verbatim>\<open>error\<close> to a new Error whose message is \<^verbatim>\<open>"Connection killed"\<close>, sets
  \<^verbatim>\<open>intercepted\<close> to false and leaves every other attribute as it was; it calls the
  reply continuation exactly once, with the payload \<^verbatim>\<open>Kill\<close>, and then calls
  \<^verbatim>\<open>handle_error\<close> of the controller with the flow: these two calls are all it adds to
  the trace.
\<close>

theorem kill_first:
  assumes "the_flow w f = Some fl" and "reply fl = Some r"
  shows "fst (Flow_kill master f w) = Returned () \<and>
         the_flow (snd (Flow_kill master f w)) f =
           Some (fl\<lparr>error := Some (length (heap w)), intercepted := False\<rparr>) \<and>
         map_option msg (the_error (snd (Flow_kill master f w)) (length (heap w))) =
           Some (Some ''Connection killed'') \<and>
         trace (snd (Flow_kill master f w)) =
           trace w @ [Reply_call r Kill, Handle_error master f]"
  using Flow_kill_returns[OF assms] by simp

theorem kill_first_witness:
  "the_flow ex_world 2 = Some ex_flow \<and> reply ex_flow = Some 3 \<and>
   fst (Flow_kill 4 2 ex_world) = Returned () \<and>
   map_option intercepted (the_flow (snd (Flow_kill 4 2 ex_world)) 2) = Some False \<and>
   map_option error (the_flow (snd (Flow_kill 4 2 ex_world)) 2) = Some (Some 5) \<and>
   map_option msg (the_error (snd (Flow_kill 4 2 ex_world)) 5) = Some (Some ''Connection killed'') \<and>
   trace (snd (Flow_kill 4 2 ex_world)) = [Reply_call 3 Kill, Handle_error 4 2]"
  using kill_first[of ex_world 2 ex_flow 3 4]
  by (simp add: ex_flow_at ex_flow_fields ex_world_fields)

text \<open>
  C10. A flow as \<^verbatim>\<open>__init__\<close> builds it has no reply continuation. On a flow without
  one, \<^verbatim>\<open>kill()\<close> raises \<^verbatim>\<open>TypeError\<close> at \<^verbatim>\<open>self.reply(Kill)\<close>, after it has
  allocated the Error, stored it in \<^verbatim>\<open>error\<close> and cleared \<^verbatim>\<open>intercepted\<close>: the store
  it leaves behind is not the one it found, and neither collaborator has been called.
\<close>

theorem kill_without_reply:
  "reply (the (the_flow (snd (Flow_init ty cc sc lv w0)) (fst (Flow_init ty cc sc lv w0)))) = None \<and>
   (the_flow w f = Some fl \<and> reply fl = None \<longrightarrow>
      fst (Flow_kill master f w) = Raised TypeError \<and>
      the_flow (snd (Flow_kill master f w)) f =
        Some (fl\<lparr>error := Some (length (heap w)), intercepted := False\<rparr>) \<and>
      map_option msg (the_error (snd (Flow_kill master f w)) (length (heap w))) =
        Some (Some ''Connection killed'') \<and>
      heap (snd (Flow_kill master f w)) \<noteq> heap w \<and>
      trace (snd (Flow_kill master f w)) = trace w)"
proof -
  have fresh: "reply (the (the_flow (snd (Flow_init ty cc sc lv w0)) (fst (Flow_init ty cc sc lv w0)))) = None"
    by (simp add: Flow_init_def split_def heap_simps)
  have "heap (snd (Flow_kill master f w)) \<noteq> heap w"
    if "the_flow w f = Some fl" "reply fl = None"
    using Flow_kill_raises(5)[OF that, of master] by auto
  with fresh show ?thesis
    using Flow_kill_raises[of w f fl master] by simp
qed

theorem kill_without_reply_witness:
  "the_flow ex_fresh 5 =
     Some \<lparr>flow_type = ''http'', flow_id = ''id-x'', client_conn = 0, server_conn = 1,
           live = LiveNone, error = None, intercepted = False, backup = None, reply = None\<rparr> \<and>
   fst (Flow_kill 4 5 ex_fresh) = Raised TypeError \<and>
   map_option error (the_flow (snd (Flow_kill 4 5 ex_fresh)) 5) = Some (Some 6) \<and>
   map_option msg (the_error (snd (Flow_kill 4 5 ex_fresh)) 6) = Some (Some ''Connection killed'') \<and>
   length (heap ex_fresh) = 6 \<and> length (heap (snd (Flow_kill 4 5 ex_fresh))) = 7 \<and>
   trace (snd (Flow_kill 4 5 ex_fresh)) = []"
proof -
  have fl: "the_flow ex_fresh 5 =
     Some \<lparr>flow_type = ''http'', flow_id = ''id-x'', client_conn = 0, server_conn = 1,
           live = LiveNone, error = None, intercepted = False, backup = None, reply = None\<rparr>"
    using Flow_init_effect(2)[of "''http''" 0 1 LiveNone ex_world]
    by (simp add: ex_fresh_def ex_world_fields)
  have len: "length (heap ex_fresh) = 6" and tr: "trace ex_fresh = []"
    by (simp_all add: ex_fresh_def Flow_init_effect ex_world_fields)
  have len2: "length (heap (snd (Flow_kill 4 5 ex_fresh))) = 7"
    using Flow_kill_raises(5)[OF fl, of 4] len by simp
  show ?thesis
    using kill_without_reply[of "''http''" 0 1 LiveNone ex_world ex_fresh 5
        "\<lparr>flow_type = ''http'', flow_id = ''id-x'', client_conn = 0, server_conn = 1,
           live = LiveNone, error = None, intercepted = False, backup = None, reply = None\<rparr>" 4]
      fl len len2 tr
    by simp
qed

text \<open>
  C1, as the code has it. \<^verbatim>\<open>kill()\<close> tests nothing before it acts, so a second call on
  a flow that was already killed (reply continuation attached) returns as the first did:
  it replaces \<^verbatim>\<open>error\<close> by another new \<^verbatim>\<open>"Connection killed"\<close> Error, leaves
  \<^verbatim>\<open>intercepted\<close> false and the other attributes as they were, calls the reply
  continuation once more with \<^verbatim>\<open>Kill\<close> and calls \<^verbatim>\<open>handle_error\<close> once more.
\<close>

theorem kill_again:
  assumes "the_flow w f = Some fl" and "reply fl = Some r"
  shows "fst (Flow_kill master f (snd (Flow_kill master f w))) = Returned () \<and>
         the_flow (snd (Flow_kill master f w)) f =
           Some (fl\<lparr>error := Some (length (heap w)), intercepted := False\<rparr>) \<and>
         the_flow (snd (Flow_kill master f (snd (Flow_kill master f w)))) f =
           Some (fl\<lparr>error := Some (Suc (length (heap w))), intercepted := False\<rparr>) \<and>
         map_option msg (the_error (snd (Flow_kill master f (snd (Flow_kill master f w))))
                                   (Suc (length (heap w)))) = Some (Some ''Connection killed'') \<and>
         trace (snd (Flow_kill master f (snd (Flow_kill master f w)))) =
           trace (snd (Flow_kill master f w)) @ [Reply_call r Kill, Handle_error master f]"
proof -
  let ?w1 = "snd (Flow_kill master f w)"
  let ?fl1 = "fl\<lparr>error := Some (length (heap w)), intercepted := False\<rparr>"
  have fl1: "the_flow ?w1 f = Some ?fl1" and len: "length (heap ?w1) = Suc (length (heap w))"
    using Flow_kill_returns[OF assms, of master] by simp_all
  have r1: "reply ?fl1 = Some r" using assms(2) by simp
  show ?thesis
    using Flow_kill_returns[OF fl1 r1, of master] fl1 len by simp
qed


theorem kill_again_witness:
  "the_flow ex_world 2 = Some ex_flow \<and> reply ex_flow = Some 3 \<and>
   fst (Flow_kill 4 2 ex_killed) = Returned () \<and>
   map_option error (the_flow ex_killed 2) = Some (Some 5) \<and>
   map_option error (the_flow (snd (Flow_kill 4 2 ex_killed)) 2) = Some (Some 6) \<and>
   trace (snd (Flow_kill 4 2 ex_killed)) = trace ex_killed @ [Reply_call 3 Kill, Handle_error 4 2]"
  using kill_again[of ex_world 2 ex_flow 3 4]
  by (simp add: ex_flow_at ex_flow_fields ex_world_fields ex_killed_def)

text \<open>
  The claim that a second \<^verbatim>\<open>kill()\<close> changes nothing and calls nobody fails on the
  concrete world: after the second call the trace holds both calls twice, and
  \<^verbatim>\<open>error\<close> refers to the object at 6 where it referred to the object at 5.
\<close>

theorem kill_twice_counterexample:
  "trace ex_killed = [Reply_call 3 Kill, Handle_error 4 2] \<and>
   trace (snd (Flow_kill 4 2 ex_killed)) =
     [Reply_call 3 Kill, Handle_error 4 2, Reply_call 3 Kill, Handle_error 4 2] \<and>
   map_option error (the_flow ex_killed 2) = Some (Some 5) \<and>
   map_option error (the_flow (snd (Flow_kill 4 2 ex_killed)) 2) = Some (Some 6)"
proof -
  have r: "reply ex_flow = Some 3" by (simp add: ex_flow_def)
  have k1: "the_flow ex_killed 2 = Some (ex_flow\<lparr>error := Some 5, intercepted := False\<rparr>)"
    and t1: "trace ex_killed = [Reply_call 3 Kill, Handle_error 4 2]"
    and l1: "length (heap ex_killed) = 6"
    using Flow_kill_returns[OF ex_flow_at r, of 4]
    by (simp_all add: ex_killed_def ex_world_fields)
  have r1: "reply (ex_flow\<lparr>error := Some 5, intercepted := False\<rparr>) = Some 3"
    by (simp add: ex_flow_def)
  show ?thesis
    using Flow_kill_returns[OF k1 r1, of 4] k1 t1 l1 by simp
qed

section \<open>intercept and accept_intercept\<close>

lemma Flow_intercept_effect:
  assumes "the_flow w f = Some fl"
  shows "fst (Flow_intercept master f w) = Returned ()"
    and "the_flow (snd (Flow_intercept master f w)) f = Some (fl\<lparr>intercepted := True\<rparr>)"
    and "trace (snd (Flow_intercept master f w)) =
           (if intercepted fl then trace w else trace w @ [Handle_intercept master f])"
    and "intercepted fl \<Longrightarrow> snd (Flow_intercept master f w) = w"
  using assms the_flow_less[OF assms]
  by (simp_all add: Flow_intercept_def Let_def heap_simps)

text \<open>
  C8. \<^verbatim>\<open>intercept()\<close> returns on every flow, and a second \<^verbatim>\<open>intercept()\<close> right after
  it returns and leaves the world exactly as the first call left it. On a flow that was
  not intercepted, the first call adds one \<^verbatim>\<open>handle_intercept\<close> to the trace, so the two
  calls together trigger it exactly once; and \<^verbatim>\<open>accept_intercept()\<close> on such a flow
  returns with the world unchanged: no controller call, no reply call.
\<close>

theorem redundant_intercept:
  assumes "the_flow w f = Some fl"
  shows "fst (Flow_intercept master f w) = Returned () \<and>
         Flow_intercept master f (snd (Flow_intercept master f w)) =
           (Returned (), snd (Flow_intercept master f w)) \<and>
         (\<not> intercepted fl \<longrightarrow>
            trace (snd (Flow_intercept master f w)) = trace w @ [Handle_intercept master f] \<and>
            Flow_accept_intercept master f w = (Returned (), w))"
proof -
  let ?w1 = "snd (Flow_intercept master f w)"
  have fl1: "the_flow ?w1 f = Some (fl\<lparr>intercepted := True\<rparr>)"
    using Flow_intercept_effect(2)[OF assms] .
  have "Flow_intercept master f ?w1 = (Returned (), ?w1)"
    using Flow_intercept_effect(1,4)[OF fl1, of master] by (simp add: prod_eq_iff)
  moreover have "Flow_accept_intercept master f w = (Returned (), w)" if "\<not> intercepted fl"
    using assms that by (simp add: Flow_accept_intercept_def)
  ultimately show ?thesis
    using Flow_intercept_effect(1,3)[OF assms, of master] by simp
qed

theorem redundant_intercept_witness:
  "the_flow ex_world 2 = Some ex_flow \<and> \<not> intercepted ex_flow \<and>
   fst (Flow_intercept 4 2 ex_world) = Returned () \<and>
   Flow_intercept 4 2 (snd (Flow_intercept 4 2 ex_world)) =
     (Returned (), snd (Flow_intercept 4 2 ex_world)) \<and>
   trace (snd (Flow_intercept 4 2 ex_world)) = [Handle_intercept 4 2] \<and>
   Flow_accept_intercept 4 2 ex_world = (Returned (), ex_world)"
  using redundant_intercept[of ex_world 2 ex_flow 4]
  by (simp add: ex_flow_at ex_flow_fields ex_world_fields)

section \<open>Error.copy\<close>

text \<open>
  C2, as the code has it. \<^verbatim>\<open>Error.copy()\<close> returns a new Error object, at an address
  that is not the one of the original, with every attribute of the original: the same
  \<^verbatim>\<open>msg\<close>, the same \<^verbatim>\<open>timestamp\<close> and the same \<^verbatim>\<open>flow\<close> back-reference (unset
  only if it was unset in the original). The original is left as it was.
\<close>
theorem error_copy_keeps_backref:
  assumes "the_error w e = Some er"
  shows "fst (Error_copy e w) = Returned (length (heap w)) \<and> length (heap w) \<noteq> e \<and>
         the_error (snd (Error_copy e w)) (length (heap w)) = Some er \<and>
         the_error (snd (Error_copy e w)) e = Some er"
  using assms the_error_less[OF assms]
  by (simp add: Error_copy_def split_def heap_simps)

lemma ex_owned_error:
  "the_error ex_owned 5 = Some \<lparr>flow = Some 2, msg = Some ''timeout'', timestamp = 1000\<rparr>"
  "length (heap ex_owned) = 6"
  by (simp_all add: ex_owned_def heap_simps ex_world_fields)

theorem error_copy_keeps_backref_witness:
  "the_error ex_owned 5 = Some \<lparr>flow = Some 2, msg = Some ''timeout'', timestamp = 1000\<rparr> \<and>
   fst (Error_copy 5 ex_owned) = Returned 6 \<and>
   the_error (snd (Error_copy 5 ex_owned)) 6 =
     Some \<lparr>flow = Some 2, msg = Some ''timeout'', timestamp = 1000\<rparr>"
  using error_copy_keeps_backref[of ex_owned 5
      "\<lparr>flow = Some 2, msg = Some ''timeout'', timestamp = 1000\<rparr>"]
  by (simp add: ex_owned_error)

text \<open>
  The claim that the copy has its back-reference unset fails on an Error that has one: the
  Error at 5 of \<open>ex_owned\<close> refers to the flow at 2, and so does its copy at 6.
\<close>

theorem error_copy_unset_counterexample:
  "fst (Error_copy 5 ex_owned) = Returned 6 \<and>
   map_option flow (the_error (snd (Error_copy 5 ex_owned)) 6) = Some (Some 2) \<and>
   map_option flow (the_error (snd (Error_copy 5 ex_owned)) 6) \<noteq> Some None"
  by (simp add: Error_copy_def split_def heap_simps ex_owned_error)


lemma Conn_copy_client:
  assumes "lookup w a = Some (ClientConnO c)"
  shows "Conn_copy a w = (Returned (length (heap w)), snd (alloc (ClientConnO c) w))"
  using assms by (simp add: Conn_copy_def split_def heap_simps)

lemma Conn_copy_server:
  assumes "lookup w a = Some (ServerConnO c)"
  shows "Conn_copy a w = (Returned (length (heap w)), snd (alloc (ServerConnO c) w))"
  using assms by (simp add: Conn_copy_def split_def heap_simps)

lemma Flow_ok_D:
  assumes "Flow_ok w fl"
  obtains c s where "lookup w (client_conn fl) = Some (ClientConnO c)"
    and "lookup w (server_conn fl) = Some (ServerConnO s)"
    and "error fl = None \<or> (\<exists>e er. error fl = Some e \<and> the_error w e = Some er)"
  using assms unfolding Flow_ok_def
  by (auto split: option.splits obj.splits)

lemma Flow_copy_steps:
  assumes fl: "the_flow w f = Some fl"
    and c: "lookup w (client_conn fl) = Some (ClientConnO c)"
    and s: "lookup w (server_conn fl) = Some (ServerConnO s)"
  defines "n \<equiv> length (heap w)"
  defines "fl3 \<equiv> fl\<lparr>flow_id := uuids w (draws w), live := LiveBool False,
                      client_conn := Suc n, server_conn := Suc (Suc n)\<rparr>"
  shows "\<exists>w7. Flow_copy f w =
    (case error fl of None \<Rightarrow> (Returned n, w7)
     | Some e \<Rightarrow> (case Error_copy e w7 of (Raised x, w8) \<Rightarrow> (Raised x, w8)
         | (Returned ec, w8) \<Rightarrow> (Returned n, store n (FlowO (fl3\<lparr>error := Some ec\<rparr>)) w8))) \<and>
     length (heap w7) = Suc (Suc (Suc n)) \<and>
     lookup w7 n = Some (FlowO fl3) \<and>
     lookup w7 (Suc n) = Some (ClientConnO c) \<and>
     lookup w7 (Suc (Suc n)) = Some (ServerConnO s) \<and>
     (\<forall>a. a < n \<longrightarrow> lookup w7 a = lookup w a) \<and>
     trace w7 = trace w \<and> uuids w7 = uuids w \<and> draws w7 = Suc (draws w)"
proof -
  define w1 where "w1 = snd (alloc (FlowO fl) w)"
  define w2 where "w2 = snd (uuid4_str w1)"
  define fl1 where "fl1 = fl\<lparr>flow_id := uuids w (draws w), live := LiveBool False\<rparr>"
  define w3 where "w3 = store n (FlowO fl1) w2"
  define w4 where "w4 = snd (alloc (ClientConnO c) w3)"
  define w5 where "w5 = store n (FlowO (fl1\<lparr>client_conn := Suc n\<rparr>)) w4"
  define w6 where "w6 = snd (alloc (ServerConnO s) w5)"
  define w7 where "w7 = store n (FlowO fl3) w6"
  note defs = w7_def w6_def w5_def w4_def w3_def w2_def w1_def
  have clt: "client_conn fl < n" and slt: "server_conn fl < n"
    using c s unfolding n_def by (auto dest: lookup_Some_less)
  have a1: "alloc (FlowO fl) w = (n, w1)"
    by (simp add: prod_eq_iff fst_alloc n_def w1_def)
  have u: "uuid4_str w1 = (uuids w (draws w), w2)"
    by (simp add: prod_eq_iff uuid_fields alloc_fields w1_def w2_def)
  have c3: "lookup w3 (client_conn fl) = Some (ClientConnO c)"
    using c clt by (simp add: heap_simps n_def w3_def w2_def w1_def)
  have len3: "length (heap w3) = Suc n" by (simp add: heap_simps n_def w3_def w2_def w1_def)
  have cc: "Conn_copy (client_conn fl) w3 = (Returned (Suc n), w4)"
    using Conn_copy_client[OF c3] len3 by (simp add: w4_def)
  have s5: "lookup w5 (server_conn fl) = Some (ServerConnO s)"
    using s slt by (simp add: heap_simps n_def defs)
  have len5: "length (heap w5) = Suc (Suc n)" by (simp add: heap_simps n_def defs)
  have sc: "Conn_copy (server_conn fl) w5 = (Returned (Suc (Suc n)), w6)"
    using Conn_copy_server[OF s5] len5 by (simp add: w6_def)
  have fl3': "fl1\<lparr>client_conn := Suc n, server_conn := Suc (Suc n)\<rparr> = fl3"
    by (simp add: fl1_def fl3_def)
  have eq: "Flow_copy f w =
    (case error fl of None \<Rightarrow> (Returned n, w7)
     | Some e \<Rightarrow> (case Error_copy e w7 of (Raised x, w8) \<Rightarrow> (Raised x, w8)
         | (Returned ec, w8) \<Rightarrow> (Returned n, store n (FlowO (fl3\<lparr>error := Some ec\<rparr>)) w8)))"
    unfolding Flow_copy_def w7_def
    by (simp add: fl a1 u Let_def cc sc fl1_def[symmetric] w3_def[symmetric]
        w5_def[symmetric] fl3')
  have "length (heap w7) = Suc (Suc (Suc n))" by (simp add: heap_simps n_def defs)
  moreover have "lookup w7 n = Some (FlowO fl3)" by (simp add: heap_simps n_def defs)
  moreover have "lookup w7 (Suc n) = Some (ClientConnO c)" by (simp add: heap_simps n_def defs)
  moreover have "lookup w7 (Suc (Suc n)) = Some (ServerConnO s)"
    by (simp add: heap_simps n_def defs)
  moreover have "\<forall>a. a < n \<longrightarrow> lookup w7 a = lookup w a" by (simp add: heap_simps n_def defs)
  moreover have "trace w7 = trace w" "uuids w7 = uuids w" "draws w7 = Suc (draws w)"
    by (simp_all add: heap_simps defs)
  ultimately show ?thesis using eq by blast
qed

section \<open>State mappings\<close>

lemma flow_state_lookup:
  "fmlookup (flow_state i e c s t b) ''id'' = Some (PStr i)"
  "fmlookup (flow_state i e c s t b) ''error'' = Some e"
  "fmlookup (flow_state i e c s t b) ''client_conn'' = Some (PDict c)"
  "fmlookup (flow_state i e c s t b) ''server_conn'' = Some (PDict s)"
  "fmlookup (flow_state i e c s t b) ''type'' = Some (PStr t)"
  "fmlookup (flow_state i e c s t b) ''intercepted'' = Some (PBool b)"
  "fmlookup (flow_state i e c s t b) ''version'' = None"
  "fmlookup (flow_state i e c s t b) ''backup'' = None"
  "fmlookup (flow_state i e c s t b) ''modified'' = None"
  by (simp_all add: flow_state_def)

lemma flow_state_inject:
  "flow_state i e c s t b = flow_state i' e' c' s' t' b' \<longleftrightarrow>
     i = i' \<and> e = e' \<and> c = c' \<and> s = s' \<and> t = t' \<and> b = b'"
proof
  assume eq: "flow_state i e c s t b = flow_state i' e' c' s' t' b'"
  have "fmlookup (flow_state i e c s t b) k = fmlookup (flow_state i' e' c' s' t' b') k" for k
    using eq by simp
  from this[of "''id''"] this[of "''error''"] this[of "''client_conn''"]
    this[of "''server_conn''"] this[of "''type''"] this[of "''intercepted''"]
  show "i = i' \<and> e = e' \<and> c = c' \<and> s = s' \<and> t = t' \<and> b = b'"
    by (simp add: flow_state_lookup)
qed simp

lemma StateObject_get_state_inv:
  assumes "StateObject_get_state w f short = Returned d"
  obtains fl c s e where "the_flow w f = Some fl"
    and "Conn_get_state w (client_conn fl) short = Some c"
    and "Conn_get_state w (server_conn fl) short = Some s"
    and "(case error fl of None \<Rightarrow> Some PNone
          | Some a \<Rightarrow> map_option (\<lambda>er. PDict (Error_get_state er)) (the_error w a)) = Some e"
    and "d = flow_state (flow_id fl) e c s (flow_type fl) (intercepted fl)"
  using assms unfolding StateObject_get_state_def flow_state_def
  by (auto split: option.splits)

lemma StateObject_get_state_eq:
  assumes "the_flow w f = Some fl"
    and "Conn_get_state w (client_conn fl) short = Some c"
    and "Conn_get_state w (server_conn fl) short = Some s"
    and "(case error fl of None \<Rightarrow> Some PNone
          | Some a \<Rightarrow> map_option (\<lambda>er. PDict (Error_get_state er)) (the_error w a)) = Some e"
  shows "StateObject_get_state w f short =
           Returned (flow_state (flow_id fl) e c s (flow_type fl) (intercepted fl))"
  using assms unfolding StateObject_get_state_def flow_state_def
  by simp

lemma Error_state_roundtrip:
  assumes "msg er = Some m"
  shows "Error_schema_ok (Error_get_state er)"
    and "str_of (fmlookup (Error_get_state er) ''msg'') = m"
    and "float_of (fmlookup (Error_get_state er) ''timestamp'') = timestamp er"
    and "Error_get_state \<lparr>flow = x, msg = Some m, timestamp = timestamp er\<rparr> = Error_get_state er"
  using assms by (simp_all add: Error_schema_ok_def Error_get_state_def str_of_def float_of_def)

lemma Error_schema_ok_get_state:
  "Error_schema_ok (Error_get_state er) \<longleftrightarrow> msg er \<noteq> None"
  by (cases "msg er") (simp_all add: Error_schema_ok_def Error_get_state_def)

lemma Error_from_state_effect:
  fixes w :: world
  assumes "Error_schema_ok ed"
  defines "n \<equiv> length (heap w)"
  shows "fst (Error_from_state ed w) = Returned n"
    and "the_error (snd (Error_from_state ed w)) n =
           Some \<lparr>flow = None, msg = Some (str_of (fmlookup ed ''msg'')),
                 timestamp = float_of (fmlookup ed ''timestamp'')\<rparr>"
    and "length (heap (snd (Error_from_state ed w))) = Suc n"
    and "\<And>a. a < n \<Longrightarrow> lookup (snd (Error_from_state ed w)) a = lookup w a"
    and "trace (snd (Error_from_state ed w)) = trace w"
    and "IVERSION (snd (Error_from_state ed w)) = IVERSION w"
    and "client_short (snd (Error_from_state ed w)) = client_short w"
    and "server_short (snd (Error_from_state ed w)) = server_short w"
proof -
  define w1 where "w1 = snd (alloc (ErrorO \<lparr>flow = None, msg = None, timestamp = clock w (ticks w)\<rparr>)
                               (snd (utils_timestamp w)))"
  have i: "Error_init None None w = (n, w1)"
    by (simp add: Error_init_def split_def heap_simps prod_eq_iff w1_def n_def)
  have e1: "the_error w1 n = Some \<lparr>flow = None, msg = None, timestamp = clock w (ticks w)\<rparr>"
    by (simp add: w1_def heap_simps n_def)
  have len1: "length (heap w1) = Suc n" by (simp add: w1_def heap_simps n_def)
  have l: "Error_load_state ed n w1 =
     (Returned (), store n (ErrorO \<lparr>flow = None, msg = Some (str_of (fmlookup ed ''msg'')),
                 timestamp = float_of (fmlookup ed ''timestamp'')\<rparr>) w1)"
    using assms(1) by (simp add: Error_load_state_def e1)
  have eq: "Error_from_state ed w =
     (Returned n, store n (ErrorO \<lparr>flow = None, msg = Some (str_of (fmlookup ed ''msg'')),
                 timestamp = float_of (fmlookup ed ''timestamp'')\<rparr>) w1)"
    by (simp add: Error_from_state_def i l)
  show "fst (Error_from_state ed w) = Returned n" by (simp add: eq)
  show "the_error (snd (Error_from_state ed w)) n =
           Some \<lparr>flow = None, msg = Some (str_of (fmlookup ed ''msg'')),
                 timestamp = float_of (fmlookup ed ''timestamp'')\<rparr>"
    by (simp add: eq heap_simps len1)
  show "length (heap (snd (Error_from_state ed w))) = Suc n" by (simp add: eq heap_simps len1)
  show "\<And>a. a < n \<Longrightarrow> lookup (snd (Error_from_state ed w)) a = lookup w a"
    by (simp add: eq heap_simps w1_def n_def)
  show "trace (snd (Error_from_state ed w)) = trace w"
    "IVERSION (snd (Error_from_state ed w)) = IVERSION w"
    "client_short (snd (Error_from_state ed w)) = client_short w"
    "server_short (snd (Error_from_state ed w)) = server_short w"
    by (simp_all add: eq heap_simps w1_def)
qed

lemma Flow_schema_ok_stamped:
  "Flow_schema_ok (fmupd ''version'' v (flow_state i e c s t b)) \<longleftrightarrow>
     (case e of PNone \<Rightarrow> True | PDict ed \<Rightarrow> Error_schema_ok ed | _ \<Rightarrow> False)"
  by (simp add: Flow_schema_ok_def flow_state_lookup split: pyval.splits)

lemma Flow_schema_ok_state:
  "Flow_schema_ok (flow_state i e c s t b) \<longleftrightarrow>
     (case e of PNone \<Rightarrow> True | PDict ed \<Rightarrow> Error_schema_ok ed | _ \<Rightarrow> False)"
  by (simp add: Flow_schema_ok_def flow_state_lookup split: pyval.splits)

lemma StateObject_load_state_effect:
  fixes w :: world
  assumes fl: "the_flow w f = Some fl"
    and D: "D = fmupd ''version'' v (flow_state i e c s t b)"
    and e: "e = PNone \<or> (\<exists>er m. e = PDict (Error_get_state er) \<and> msg er = Some m)"
  shows "fst (StateObject_load_state D f w) = Returned ()"
    and "StateObject_get_state (snd (StateObject_load_state D f w)) f False =
           Returned (flow_state i e c s t b)"
    and "\<exists>fl3. the_flow (snd (StateObject_load_state D f w)) f = Some fl3 \<and>
           flow_id fl3 = i \<and> flow_type fl3 = t \<and> intercepted fl3 = b \<and>
           backup fl3 = backup fl \<and> reply fl3 = reply fl \<and> live fl3 = live fl"
    and "IVERSION (snd (StateObject_load_state D f w)) = IVERSION w"
    and "trace (snd (StateObject_load_state D f w)) = trace w"
    and "f < length (heap (snd (StateObject_load_state D f w)))"
proof -
  define n where "n = length (heap w)"
  define w1 where "w1 = snd (alloc (ClientConnO c) w)"
  define w2 where "w2 = snd (alloc (ServerConnO s) w1)"
  define fl1 where "fl1 = fl\<lparr>flow_id := i, flow_type := t, intercepted := b,
                             client_conn := n, server_conn := Suc n\<rparr>"
  have lt: "f < n" using fl unfolding n_def by (rule the_flow_less)
  have Dl: "fmlookup D ''id'' = Some (PStr i)" "fmlookup D ''error'' = Some e"
    "fmlookup D ''client_conn'' = Some (PDict c)" "fmlookup D ''server_conn'' = Some (PDict s)"
    "fmlookup D ''type'' = Some (PStr t)" "fmlookup D ''intercepted'' = Some (PBool b)"
    by (simp_all add: D flow_state_lookup)
  have ok: "Flow_schema_ok D"
    using e by (auto simp: D Flow_schema_ok_stamped Error_schema_ok_get_state)
  have a1: "alloc (ClientConnO c) w = (n, w1)"
    by (simp add: prod_eq_iff fst_alloc n_def w1_def)
  have a2: "alloc (ServerConnO s) w1 = (Suc n, w2)"
    by (simp add: prod_eq_iff fst_alloc length_alloc n_def w1_def w2_def)
  note fl1' = dict_of_def str_of_def bool_of_def fl1_def
  have f1: "flow_id fl1 = i" "flow_type fl1 = t" "intercepted fl1 = b" "backup fl1 = backup fl"
    "reply fl1 = reply fl" "live fl1 = live fl"
    by (simp_all add: fl1_def)
  have len2: "length (heap w2) = Suc (Suc n)" by (simp add: w2_def w1_def heap_simps n_def)
  have l2: "lookup w2 n = Some (ClientConnO c)" "lookup w2 (Suc n) = Some (ServerConnO s)"
    "the_flow w2 f = Some fl"
    using lt fl by (simp_all add: w2_def w1_def heap_simps n_def)
  have o2: "IVERSION w2 = IVERSION w" "trace w2 = trace w"
    by (simp_all add: w2_def w1_def heap_simps)
  from e show "fst (StateObject_load_state D f w) = Returned ()"
    and "StateObject_get_state (snd (StateObject_load_state D f w)) f False =
           Returned (flow_state i e c s t b)"
    and "\<exists>fl3. the_flow (snd (StateObject_load_state D f w)) f = Some fl3 \<and>
           flow_id fl3 = i \<and> flow_type fl3 = t \<and> intercepted fl3 = b \<and>
           backup fl3 = backup fl \<and> reply fl3 = reply fl \<and> live fl3 = live fl"
    and "IVERSION (snd (StateObject_load_state D f w)) = IVERSION w"
    and "trace (snd (StateObject_load_state D f w)) = trace w"
    and "f < length (heap (snd (StateObject_load_state D f w)))"
  proof (atomize (full), elim disjE exE conjE, goal_cases)
    case 1
    have eq: "StateObject_load_state D f w =
                (Returned (), store f (FlowO (fl1\<lparr>error := None\<rparr>)) w2)"
      unfolding StateObject_load_state_def
      by (simp add: fl ok a1 a2 Let_def fl1' Dl 1)
    have g: "StateObject_get_state (store f (FlowO (fl1\<lparr>error := None\<rparr>)) w2) f False =
               Returned (flow_state i e c s t b)"
      using lt l2
      by (subst StateObject_get_state_eq[where fl="fl1\<lparr>error := None\<rparr>" and c=c and s=s and e=e])
         (simp_all add: heap_simps len2 fl1_def Conn_get_state_def 1)
    show ?case using lt
      by (simp add: eq g heap_simps len2 o2 f1)
  next
    case (2 er m)
    let ?ed = "Error_get_state er"
    have sok: "Error_schema_ok ?ed" using 2 by (simp add: Error_schema_ok_get_state)
    define w3 where "w3 = snd (Error_from_state ?ed w2)"
    have ef: "Error_from_state ?ed w2 = (Returned (Suc (Suc n)), w3)"
      using Error_from_state_effect(1)[OF sok, of w2] by (simp add: prod_eq_iff w3_def len2)
    have e3: "the_error w3 (Suc (Suc n)) = Some \<lparr>flow = None, msg = Some m, timestamp = timestamp er\<rparr>"
      using Error_from_state_effect(2)[OF sok, of w2] Error_state_roundtrip(2,3)[OF 2(2)]
      by (simp add: w3_def len2)
    have len3: "length (heap w3) = Suc (Suc (Suc n))"
      using Error_from_state_effect(3)[OF sok, of w2] by (simp add: w3_def len2)
    have l3: "lookup w3 n = Some (ClientConnO c)" "lookup w3 (Suc n) = Some (ServerConnO s)"
      using Error_from_state_effect(4)[OF sok, of _ w2] l2 by (simp_all add: w3_def len2)
    have o3: "IVERSION w3 = IVERSION w" "trace w3 = trace w"
      using Error_from_state_effect(5,6)[OF sok, of w2] o2 by (simp_all add: w3_def)
    have eq: "StateObject_load_state D f w =
                (Returned (), store f (FlowO (fl1\<lparr>error := Some (Suc (Suc n))\<rparr>)) w3)"
      unfolding StateObject_load_state_def
      by (simp add: fl ok a1 a2 Let_def fl1' Dl 2 ef)
    have g: "StateObject_get_state (store f (FlowO (fl1\<lparr>error := Some (Suc (Suc n))\<rparr>)) w3) f False =
               Returned (flow_state i e c s t b)"
      using lt l3 e3 Error_state_roundtrip(4)[OF 2(2), of None]
      by (subst StateObject_get_state_eq[where fl="fl1\<lparr>error := Some (Suc (Suc n))\<rparr>"
            and c=c and s=s and e=e])
         (simp_all add: heap_simps len3 fl1_def Conn_get_state_def 2)
    show ?case using lt
      by (simp add: eq g heap_simps len3 o3 f1)
  qed
qed

lemma fmupd_not_empty: "fmupd k v m \<noteq> fmempty"
proof
  assume "fmupd k v m = fmempty"
  then have "fmlookup (fmupd k v m) k = fmlookup fmempty k" by simp
  then show False by simp
qed

lemma stamped_state_inject:
  "fmupd ''version'' v (flow_state i e c s t b) = fmupd ''version'' v' (flow_state i' e' c' s' t' b')
     \<longleftrightarrow> v = v' \<and> flow_state i e c s t b = flow_state i' e' c' s' t' b'"
proof
  assume eq: "fmupd ''version'' v (flow_state i e c s t b) =
              fmupd ''version'' v' (flow_state i' e' c' s' t' b')"
  have "fmlookup (fmupd ''version'' v (flow_state i e c s t b)) k =
        fmlookup (fmupd ''version'' v' (flow_state i' e' c' s' t' b')) k" for k
    using eq by simp
  from this[of "''id''"] this[of "''error''"] this[of "''client_conn''"]
    this[of "''server_conn''"] this[of "''type''"] this[of "''intercepted''"] this[of "''version''"]
  show "v = v' \<and> flow_state i e c s t b = flow_state i' e' c' s' t' b'"
    by (simp add: flow_state_lookup flow_state_inject)
qed simp

lemma Flow_get_state_eq:
  assumes "the_flow w f = Some fl"
    and "StateObject_get_state w f short = Returned d0"
    and "backup_value w fl = Returned b"
  shows "Flow_get_state w f short =
           Returned (if truthy b \<and> b \<noteq> Some (fmupd ''version'' (PInt (IVERSION w)) d0)
                     then (if short
                           then fmupd ''modified'' (PBool True)
                                  (fmupd ''version'' (PInt (IVERSION w)) d0)
                           else fmupd ''backup'' (PDict (the b))
                                  (fmupd ''version'' (PInt (IVERSION w)) d0))
                     else fmupd ''version'' (PInt (IVERSION w)) d0)"
  using assms by (simp add: Flow_get_state_def Let_def)

lemma backup_value_None: "backup fl = None \<Longrightarrow> backup_value w fl = Returned None"
  by (simp add: backup_value_def)

lemma backup_value_Some:
  "backup fl = Some a \<Longrightarrow> the_dict w a = Some d \<Longrightarrow> backup_value w fl = Returned (Some d)"
  by (simp add: backup_value_def)

lemma Conn_get_state_less:
  "Conn_get_state w a short = Some c \<Longrightarrow> a < length (heap w)"
  by (auto simp: Conn_get_state_def lookup_def split: if_splits option.splits obj.splits)

lemma Conn_get_state_alloc:
  "Conn_get_state w a short = Some c \<Longrightarrow> Conn_get_state (snd (alloc ob w)) a short = Some c"
  by (frule Conn_get_state_less)
     (auto simp: Conn_get_state_def heap_simps split: option.splits obj.splits)

lemma Conn_get_state_store_flow:
  "the_flow w f = Some fl \<Longrightarrow>
   Conn_get_state (store f (FlowO fl') w) a short = Conn_get_state w a short"
  by (auto simp: Conn_get_state_def heap_simps the_flow_lookup split: option.splits obj.splits)

lemma the_error_store_flow:
  "the_flow w f = Some fl \<Longrightarrow> the_error (store f (FlowO fl') w) a = the_error w a"
  by (auto simp: heap_simps the_flow_lookup the_error_def)

lemma the_dict_store_flow:
  "the_flow w f = Some fl \<Longrightarrow> the_dict (store f (FlowO fl') w) a = the_dict w a"
  by (auto simp: heap_simps the_flow_lookup the_dict_def)

lemma state_store_flow:
  assumes "the_flow w f = Some fl"
    and "flow_id fl' = flow_id fl" "flow_type fl' = flow_type fl"
    and "intercepted fl' = intercepted fl" "client_conn fl' = client_conn fl"
    and "server_conn fl' = server_conn fl" "error fl' = error fl"
  shows "StateObject_get_state (store f (FlowO fl') w) f short = StateObject_get_state w f short"
  using assms the_flow_less[OF assms(1)]
  by (simp add: StateObject_get_state_def the_flow_store Conn_get_state_store_flow[OF assms(1)]
      the_error_store_flow[OF assms(1)] cong: option.case_cong prod.case_cong)

lemma state_alloc:
  assumes "StateObject_get_state w f short = Returned d"
  shows "StateObject_get_state (snd (alloc ob w)) f short = Returned d"
proof -
  from assms obtain fl c s e where fl: "the_flow w f = Some fl"
    and c: "Conn_get_state w (client_conn fl) short = Some c"
    and s: "Conn_get_state w (server_conn fl) short = Some s"
    and e: "(case error fl of None \<Rightarrow> Some PNone
          | Some a \<Rightarrow> map_option (\<lambda>er. PDict (Error_get_state er)) (the_error w a)) = Some e"
    and d: "d = flow_state (flow_id fl) e c s (flow_type fl) (intercepted fl)"
    by (rule StateObject_get_state_inv)
  have fl': "the_flow (snd (alloc ob w)) f = Some fl"
    using fl the_flow_less[OF fl] by (simp add: heap_simps)
  have e': "(case error fl of None \<Rightarrow> Some PNone
          | Some a \<Rightarrow> map_option (\<lambda>er. PDict (Error_get_state er))
                        (the_error (snd (alloc ob w)) a)) = Some e"
    using e by (auto simp: heap_simps split: option.splits dest: the_error_less)
  show ?thesis
    using StateObject_get_state_eq[OF fl' Conn_get_state_alloc[OF c] Conn_get_state_alloc[OF s] e']
    by (simp add: d)
qed

lemma Flow_backup_fresh:
  assumes fl: "the_flow w f = Some fl" and nb: "backup fl = None"
    and d: "StateObject_get_state w f False = Returned d"
  shows "Flow_backup force f w =
           (Returned (),
            store f (FlowO (fl\<lparr>backup := Some (length (heap w))\<rparr>))
              (snd (alloc (DictO (fmupd ''version'' (PInt (IVERSION w)) d)) w)))"
proof -
  have g: "Flow_get_state w f False = Returned (fmupd ''version'' (PInt (IVERSION w)) d)"
    using Flow_get_state_eq[OF fl d backup_value_None[OF nb]] by (simp add: truthy_def)
  show ?thesis
    by (simp add: Flow_backup_def fl backup_value_None[OF nb] truthy_def g split_def fst_alloc)
qed

lemma Flow_backup_present:
  assumes "the_flow w f = Some fl" and "backup_value w fl = Returned b" and "truthy b"
  shows "Flow_backup force f w = (Returned (), w)"
  using assms by (simp add: Flow_backup_def)

lemma Flow_backup_world:
  fixes force :: bool
  assumes fl: "the_flow w f = Some fl" and nb: "backup fl = None"
    and d: "StateObject_get_state w f False = Returned d"
  defines "w1 \<equiv> snd (Flow_backup force f w)"
  shows "fst (Flow_backup force f w) = Returned ()"
    and "the_flow w1 f = Some (fl\<lparr>backup := Some (length (heap w))\<rparr>)"
    and "the_dict w1 (length (heap w)) = Some (fmupd ''version'' (PInt (IVERSION w)) d)"
    and "StateObject_get_state w1 f False = Returned d"
    and "IVERSION w1 = IVERSION w" and "trace w1 = trace w"
    and "length (heap w1) = Suc (length (heap w))"
    and "\<forall>a. a < length (heap w) \<longrightarrow> a \<noteq> f \<longrightarrow> lookup w1 a = lookup w a"
proof -
  let ?wa = "snd (alloc (DictO (fmupd ''version'' (PInt (IVERSION w)) d)) w)"
  have lt: "f < length (heap w)" using fl by (rule the_flow_less)
  have fla: "the_flow ?wa f = Some fl" using fl lt by (simp add: heap_simps)
  have w1: "w1 = store f (FlowO (fl\<lparr>backup := Some (length (heap w))\<rparr>)) ?wa"
    by (simp add: w1_def Flow_backup_fresh[OF fl nb d])
  show "fst (Flow_backup force f w) = Returned ()"
    by (simp add: Flow_backup_fresh[OF fl nb d])
  show "the_flow w1 f = Some (fl\<lparr>backup := Some (length (heap w))\<rparr>)"
    using lt by (simp add: w1 heap_simps)
  show "the_dict w1 (length (heap w)) = Some (fmupd ''version'' (PInt (IVERSION w)) d)"
    using lt by (simp add: w1 heap_simps)
  show "StateObject_get_state w1 f False = Returned d"
    unfolding w1 using state_store_flow[OF fla, of "fl\<lparr>backup := Some (length (heap w))\<rparr>" False]
      state_alloc[OF d] by simp
  show "IVERSION w1 = IVERSION w" "trace w1 = trace w" "length (heap w1) = Suc (length (heap w))"
    "\<forall>a. a < length (heap w) \<longrightarrow> a \<noteq> f \<longrightarrow> lookup w1 a = lookup w a"
    by (simp_all add: w1 heap_simps)
qed

lemma Flow_revert_effect:
  fixes w :: world
  assumes fl: "the_flow w f = Some fl" and slot: "backup fl = Some a"
    and snap: "the_dict w a = Some (fmupd ''version'' v (flow_state i e c s t b))"
    and e: "e = PNone \<or> (\<exists>er m. e = PDict (Error_get_state er) \<and> msg er = Some m)"
  shows "fst (Flow_revert f w) = Returned ()"
    and "StateObject_get_state (snd (Flow_revert f w)) f False = Returned (flow_state i e c s t b)"
    and "\<exists>fl3. the_flow (snd (Flow_revert f w)) f = Some fl3 \<and> backup fl3 = None \<and>
           flow_id fl3 = i \<and> flow_type fl3 = t \<and> intercepted fl3 = b \<and>
           reply fl3 = reply fl \<and> live fl3 = live fl"
    and "Flow_modified f (snd (Flow_revert f w)) = Returned False"
    and "trace (snd (Flow_revert f w)) = trace w"
proof -
  let ?D = "fmupd ''version'' v (flow_state i e c s t b)"
  define w1 where "w1 = snd (StateObject_load_state ?D f w)"
  note L = StateObject_load_state_effect[OF fl refl e, of v i c s t b, folded w1_def]
  from L(3) obtain fl3 where fl3: "the_flow w1 f = Some fl3" "flow_id fl3 = i" "flow_type fl3 = t"
    "intercepted fl3 = b" "backup fl3 = backup fl" "reply fl3 = reply fl" "live fl3 = live fl"
    by blast
  have ld: "StateObject_load_state ?D f w = (Returned (), w1)"
    using L(1) by (simp add: prod_eq_iff w1_def)
  have bv: "backup_value w fl = Returned (Some ?D)"
    using slot snap by (rule backup_value_Some)
  have eq: "Flow_revert f w = (Returned (), store f (FlowO (fl3\<lparr>backup := None\<rparr>)) w1)"
    by (simp add: Flow_revert_def fl bv truthy_def fmupd_not_empty ld fl3(1))
  have lt: "f < length (heap w1)" using L(6) .
  have fl4: "the_flow (store f (FlowO (fl3\<lparr>backup := None\<rparr>)) w1) f = Some (fl3\<lparr>backup := None\<rparr>)"
    using lt by (simp add: heap_simps)
  show "fst (Flow_revert f w) = Returned ()" by (simp add: eq)
  show "StateObject_get_state (snd (Flow_revert f w)) f False = Returned (flow_state i e c s t b)"
    using state_store_flow[OF fl3(1), of "fl3\<lparr>backup := None\<rparr>" False] L(2) by (simp add: eq)
  show "\<exists>fl3. the_flow (snd (Flow_revert f w)) f = Some fl3 \<and> backup fl3 = None \<and>
           flow_id fl3 = i \<and> flow_type fl3 = t \<and> intercepted fl3 = b \<and>
           reply fl3 = reply fl \<and> live fl3 = live fl"
    using fl4 fl3 by (simp add: eq)
  show "Flow_modified f (snd (Flow_revert f w)) = Returned False"
    using fl4 by (simp add: eq Flow_modified_def backup_value_def truthy_def)
  show "trace (snd (Flow_revert f w)) = trace w"
    using L(5) by (simp add: eq heap_simps)
qed

lemma state_error_shape:
  assumes "StateObject_get_state w f short = Returned (flow_state i e c s t b)"
    and "Flow_schema_ok (flow_state i e c s t b)"
  shows "e = PNone \<or> (\<exists>er m. e = PDict (Error_get_state er) \<and> msg er = Some m)"
proof -
  from assms(1) obtain fl c' s' e' where "the_flow w f = Some fl"
    and "Conn_get_state w (client_conn fl) short = Some c'"
    and "Conn_get_state w (server_conn fl) short = Some s'"
    and e': "(case error fl of None \<Rightarrow> Some PNone
          | Some a \<Rightarrow> map_option (\<lambda>er. PDict (Error_get_state er)) (the_error w a)) = Some e'"
    and d: "flow_state i e c s t b = flow_state (flow_id fl) e' c' s' (flow_type fl) (intercepted fl)"
    by (rule StateObject_get_state_inv)
  from d have "e = e'" by (simp add: flow_state_inject)
  with e' have "e = PNone \<or> (\<exists>er. e = PDict (Error_get_state er))"
    by (auto split: option.splits)
  with assms(2) show ?thesis
    by (auto simp: Flow_schema_ok_state Error_schema_ok_get_state)
qed

lemma Flow_modified_changed:
  assumes fl: "the_flow w f = Some fl" and slot: "backup fl = Some a"
    and snap: "the_dict w a = Some (fmupd ''version'' (PInt (IVERSION w)) d)"
    and d2: "StateObject_get_state w f False = Returned d2"
    and d: "\<exists>i e c s t b. d = flow_state i e c s t b"
  shows "Flow_modified f w = Returned (d2 \<noteq> d)"
proof -
  let ?v = "PInt (IVERSION w)"
  from d obtain i e c s t b where df: "d = flow_state i e c s t b" by blast
  from d2 obtain fl' c' s' e' where "the_flow w f = Some fl'"
    and "Conn_get_state w (client_conn fl') False = Some c'"
    and "Conn_get_state w (server_conn fl') False = Some s'"
    and "(case error fl' of None \<Rightarrow> Some PNone
          | Some a \<Rightarrow> map_option (\<lambda>er. PDict (Error_get_state er)) (the_error w a)) = Some e'"
    and d2f: "d2 = flow_state (flow_id fl') e' c' s' (flow_type fl') (intercepted fl')"
    by (rule StateObject_get_state_inv)
  have bv: "backup_value w fl = Returned (Some (fmupd ''version'' ?v d))"
    using slot snap by (rule backup_value_Some)
  have ne: "fmupd ''version'' ?v d = fmupd ''version'' ?v d2 \<longleftrightarrow> d = d2"
    unfolding df d2f by (simp add: stamped_state_inject)
  have nb: "fmupd ''version'' ?v d \<noteq> fmupd ''backup'' x (fmupd ''version'' ?v d2)" for x
  proof
    assume "fmupd ''version'' ?v d = fmupd ''backup'' x (fmupd ''version'' ?v d2)"
    then have "fmlookup (fmupd ''version'' ?v d) ''backup'' =
               fmlookup (fmupd ''backup'' x (fmupd ''version'' ?v d2)) ''backup''" by simp
    then show False by (simp add: df flow_state_lookup)
  qed
  show ?thesis
    using Flow_get_state_eq[OF fl d2 bv] ne nb
    by (auto simp: Flow_modified_def fl bv truthy_def fmupd_not_empty)
qed

section \<open>get_state, backup, modified and revert\<close>

lemma state_set_intercepted:
  assumes fl: "the_flow w f = Some fl"
    and d: "StateObject_get_state w f short = Returned (flow_state i e c s t b)"
  shows "StateObject_get_state (store f (FlowO (fl\<lparr>intercepted := v\<rparr>)) w) f short =
           Returned (flow_state i e c s t v)"
proof -
  from d obtain fl' c' s' e' where fl': "the_flow w f = Some fl'"
    and c: "Conn_get_state w (client_conn fl') short = Some c'"
    and s: "Conn_get_state w (server_conn fl') short = Some s'"
    and e: "(case error fl' of None \<Rightarrow> Some PNone
          | Some a \<Rightarrow> map_option (\<lambda>er. PDict (Error_get_state er)) (the_error w a)) = Some e'"
    and df: "flow_state i e c s t b =
             flow_state (flow_id fl') e' c' s' (flow_type fl') (intercepted fl')"
    by (rule StateObject_get_state_inv)
  have [simp]: "fl' = fl" using fl fl' by simp
  have lt: "f < length (heap w)" using fl by (rule the_flow_less)
  have "StateObject_get_state (store f (FlowO (fl\<lparr>intercepted := v\<rparr>)) w) f short =
          Returned (flow_state (flow_id fl) e' c' s' (flow_type fl) v)"
    using c s e lt
    by (subst StateObject_get_state_eq[where fl="fl\<lparr>intercepted := v\<rparr>" and c=c' and s=s' and e=e'])
       (simp_all add: the_flow_store Conn_get_state_store_flow[OF fl] the_error_store_flow[OF fl]
          cong: option.case_cong)
  with df show ?thesis by (simp add: flow_state_inject)
qed

lemma ex_world_state: "StateObject_get_state ex_world 2 False = Returned ex_state"
  by (simp add: StateObject_get_state_def Conn_get_state_def the_flow_def lookup_def
      ex_world_def ex_flow_def ex_state_def flow_state_def)

lemma ex_state_ok: "Flow_schema_ok ex_state"
  by (simp add: ex_state_def Flow_schema_ok_state)

lemma ex_backed_facts:
  "the_flow ex_backed 2 = Some (ex_flow\<lparr>backup := Some 5\<rparr>)"
  "the_dict ex_backed 5 = Some (fmupd ''version'' (PInt 1) ex_state)"
  "StateObject_get_state ex_backed 2 False = Returned ex_state"
  "IVERSION ex_backed = 1" "length (heap ex_backed) = 6" "trace ex_backed = []"
  using Flow_backup_world[OF ex_flow_at ex_flow_fields(4) ex_world_state, of False]
  by (simp_all add: ex_backed_def ex_world_fields)

lemma ex_edited_facts:
  "the_flow ex_edited 2 = Some (ex_flow\<lparr>backup := Some 5, intercepted := True\<rparr>)"
  "the_dict ex_edited 5 = Some (fmupd ''version'' (PInt 1) ex_state)"
  "StateObject_get_state ex_edited 2 False =
     Returned (flow_state ''id-0'' PNone (fmupd ''address'' (PStr ''10.0.0.1'') fmempty)
                (fmupd ''address'' (PStr ''10.0.0.2'') fmempty) ''http'' True)"
  "IVERSION ex_edited = 1" "trace ex_edited = []"
proof -
  show "the_flow ex_edited 2 = Some (ex_flow\<lparr>backup := Some 5, intercepted := True\<rparr>)"
    by (simp add: ex_edited_def heap_simps ex_backed_facts)
  show "the_dict ex_edited 5 = Some (fmupd ''version'' (PInt 1) ex_state)"
    by (simp add: ex_edited_def the_dict_store_flow[OF ex_backed_facts(1)] ex_backed_facts)
  show "StateObject_get_state ex_edited 2 False =
     Returned (flow_state ''id-0'' PNone (fmupd ''address'' (PStr ''10.0.0.1'') fmempty)
                (fmupd ''address'' (PStr ''10.0.0.2'') fmempty) ''http'' True)"
    using state_set_intercepted[OF ex_backed_facts(1), of False "''id-0''" PNone
        "fmupd ''address'' (PStr ''10.0.0.1'') fmempty"
        "fmupd ''address'' (PStr ''10.0.0.2'') fmempty" "''http''" False True]
      ex_backed_facts(3)
    by (simp add: ex_edited_def ex_state_def)
  show "IVERSION ex_edited = 1" "trace ex_edited = []"
    by (simp_all add: ex_edited_def heap_simps ex_backed_facts)
qed



text \<open>
  C4, at the failing input. The flow at 2 of \<open>ex_edited\<close> holds a backup (the mapping
  at 5) and has been edited since, so \<^verbatim>\<open>modified()\<close> is true and there is a newer state
  to capture; \<^verbatim>\<open>backup(force=True)\<close> returns and leaves the world, and with it the
  backup, exactly as it was.
\<close>

theorem backup_force_ignored:
  "Flow_modified 2 ex_edited = Returned True \<and>
   Flow_backup True 2 ex_edited = (Returned (), ex_edited) \<and>
   the_dict ex_edited 5 = Some (fmupd ''version'' (PInt 1) ex_state)"
proof -
  let ?fl = "ex_flow\<lparr>backup := Some 5, intercepted := True\<rparr>"
  have bv: "backup_value ex_edited ?fl = Returned (Some (fmupd ''version'' (PInt 1) ex_state))"
    by (simp add: backup_value_def ex_edited_facts)
  have tr: "truthy (Some (fmupd ''version'' (PInt 1) ex_state))"
    by (simp add: truthy_def fmupd_not_empty)
  have m: "Flow_modified 2 ex_edited = Returned True"
    using Flow_modified_changed[OF ex_edited_facts(1), of 5 ex_state, OF _ _ ex_edited_facts(3)]
    by (simp add: ex_edited_facts ex_state_def flow_state_inject) blast
  show ?thesis
    using m Flow_backup_present[OF ex_edited_facts(1) bv tr, of True] ex_edited_facts(2) by simp
qed

text \<open>
  A changed \<^verbatim>\<open>id\<close>, \<^verbatim>\<open>type\<close> or \<^verbatim>\<open>intercepted\<close> changes the state that the framework
  serializes: these are mutations of a serialized field in the sense of the next theorem.
\<close>

lemma scalar_field_changes_state:
  assumes fl: "the_flow w f = Some fl" and d: "StateObject_get_state w f short = Returned d"
    and fl2: "the_flow w2 f = Some fl2" and d2: "StateObject_get_state w2 f short = Returned d2"
    and ne: "flow_id fl2 \<noteq> flow_id fl \<or> flow_type fl2 \<noteq> flow_type fl \<or>
             intercepted fl2 \<noteq> intercepted fl"
  shows "d2 \<noteq> d"
proof -
  from d obtain fl' c s e where "the_flow w f = Some fl'"
    and "Conn_get_state w (client_conn fl') short = Some c"
    and "Conn_get_state w (server_conn fl') short = Some s"
    and "(case error fl' of None \<Rightarrow> Some PNone
          | Some a \<Rightarrow> map_option (\<lambda>er. PDict (Error_get_state er)) (the_error w a)) = Some e"
    and df: "d = flow_state (flow_id fl') e c s (flow_type fl') (intercepted fl')"
    by (rule StateObject_get_state_inv)
  from d2 obtain fl2' c2 s2 e2 where "the_flow w2 f = Some fl2'"
    and "Conn_get_state w2 (client_conn fl2') short = Some c2"
    and "Conn_get_state w2 (server_conn fl2') short = Some s2"
    and "(case error fl2' of None \<Rightarrow> Some PNone
          | Some a \<Rightarrow> map_option (\<lambda>er. PDict (Error_get_state er)) (the_error w2 a)) = Some e2"
    and d2f: "d2 = flow_state (flow_id fl2') e2 c2 s2 (flow_type fl2') (intercepted fl2')"
    by (rule StateObject_get_state_inv)
  have "fl' = fl" "fl2' = fl2" using fl fl2 \<open>the_flow w f = Some fl'\<close> \<open>the_flow w2 f = Some fl2'\<close>
    by simp_all
  with ne show ?thesis unfolding df d2f by (auto simp: flow_state_inject)
qed

text \<open>
  C6, as the code has it. Let a flow have no backup when \<^verbatim>\<open>backup()\<close> is called, and
  let its full state \<open>d\<close> pass the schema check of the framework. Then \<^verbatim>\<open>modified()\<close>
  is false and \<^verbatim>\<open>revert()\<close> changes nothing; \<^verbatim>\<open>backup()\<close> returns and stores the
  stamped state in a new mapping that the slot refers to, and \<^verbatim>\<open>modified()\<close> is still
  false. Let \<open>w2\<close> be any world in which the flow still has that slot and that snapshot
  and in which a serialized field has another value, that is, the full state \<open>d2\<close> of the
  flow differs from \<open>d\<close>. Then \<^verbatim>\<open>modified()\<close> is true in \<open>w2\<close>; \<^verbatim>\<open>revert()\<close>
  returns, and after it \<^verbatim>\<open>modified()\<close> is false, the backup slot is \<^verbatim>\<open>None\<close>, and the
  full state of the flow is \<open>d\<close> again: every serialized field, \<^verbatim>\<open>id\<close>, \<^verbatim>\<open>type\<close> and
  \<^verbatim>\<open>intercepted\<close> among them, has its value from before the mutation.
\<close>

theorem backup_revert_roundtrip:
  assumes fl: "the_flow w f = Some fl" and nb: "backup fl = None"
    and d: "StateObject_get_state w f False = Returned d" and ok: "Flow_schema_ok d"
    and fl2: "the_flow w2 f = Some fl2" and slot: "backup fl2 = Some (length (heap w))"
    and snap: "the_dict w2 (length (heap w)) = Some (fmupd ''version'' (PInt (IVERSION w)) d)"
    and ver: "IVERSION w2 = IVERSION w"
    and d2: "StateObject_get_state w2 f False = Returned d2" and ne: "d2 \<noteq> d"
  shows "Flow_modified f w = Returned False \<and>
         Flow_revert f w = (Returned (), w) \<and>
         fst (Flow_backup False f w) = Returned () \<and>
         the_flow (snd (Flow_backup False f w)) f = Some (fl\<lparr>backup := Some (length (heap w))\<rparr>) \<and>
         the_dict (snd (Flow_backup False f w)) (length (heap w)) =
           Some (fmupd ''version'' (PInt (IVERSION w)) d) \<and>
         Flow_modified f (snd (Flow_backup False f w)) = Returned False \<and>
         Flow_modified f w2 = Returned True \<and>
         fst (Flow_revert f w2) = Returned () \<and>
         Flow_modified f (snd (Flow_revert f w2)) = Returned False \<and>
         StateObject_get_state (snd (Flow_revert f w2)) f False = Returned d \<and>
         (\<exists>fl3. the_flow (snd (Flow_revert f w2)) f = Some fl3 \<and> backup fl3 = None \<and>
                flow_id fl3 = flow_id fl \<and> flow_type fl3 = flow_type fl \<and>
                intercepted fl3 = intercepted fl)"
proof -
  from d obtain fl' c s e where fl': "the_flow w f = Some fl'"
    and "Conn_get_state w (client_conn fl') False = Some c"
    and "Conn_get_state w (server_conn fl') False = Some s"
    and "(case error fl' of None \<Rightarrow> Some PNone
          | Some a \<Rightarrow> map_option (\<lambda>er. PDict (Error_get_state er)) (the_error w a)) = Some e"
    and df: "d = flow_state (flow_id fl') e c s (flow_type fl') (intercepted fl')"
    by (rule StateObject_get_state_inv)
  have same: "fl' = fl" using fl fl' by simp
  have dform: "\<exists>i e c s t b. d = flow_state i e c s t b" using df by blast
  have es: "e = PNone \<or> (\<exists>er m. e = PDict (Error_get_state er) \<and> msg er = Some m)"
    using state_error_shape[of w f False] d ok unfolding df by blast
  note B = Flow_backup_world[OF fl nb d, of False]
  have m0: "Flow_modified f w = Returned False"
    by (simp add: Flow_modified_def fl backup_value_None[OF nb] truthy_def)
  have r0: "Flow_revert f w = (Returned (), w)"
    by (simp add: Flow_revert_def fl backup_value_None[OF nb] truthy_def)
  have m1: "Flow_modified f (snd (Flow_backup False f w)) = Returned False"
    using Flow_modified_changed[OF B(2), of "length (heap w)" d d] B(3,4,5) dform by simp
  have m2: "Flow_modified f w2 = Returned True"
    using Flow_modified_changed[OF fl2 slot, of d d2] snap ver d2 dform ne by simp
  note R = Flow_revert_effect[OF fl2 slot, of "PInt (IVERSION w)" "flow_id fl'" e c s
      "flow_type fl'" "intercepted fl'", folded df, OF snap es]
  show ?thesis
    using m0 r0 B(1,2,3) m1 m2 R(1,2,4) R(3) unfolding same by blast
qed

theorem backup_revert_roundtrip_witness:
  "the_flow ex_world 2 = Some ex_flow \<and> backup ex_flow = None \<and>
   StateObject_get_state ex_world 2 False = Returned ex_state \<and> Flow_schema_ok ex_state \<and>
   the_flow ex_backed 2 = Some (ex_flow\<lparr>backup := Some 5\<rparr>) \<and>
   the_flow ex_edited 2 = Some (ex_flow\<lparr>backup := Some 5, intercepted := True\<rparr>) \<and>
   intercepted ex_flow = False \<and>
   Flow_modified 2 ex_world = Returned False \<and>
   Flow_modified 2 ex_backed = Returned False \<and>
   Flow_modified 2 ex_edited = Returned True \<and>
   fst (Flow_revert 2 ex_edited) = Returned () \<and>
   Flow_modified 2 (snd (Flow_revert 2 ex_edited)) = Returned False \<and>
   StateObject_get_state (snd (Flow_revert 2 ex_edited)) 2 False = Returned ex_state \<and>
   (\<exists>fl3. the_flow (snd (Flow_revert 2 ex_edited)) 2 = Some fl3 \<and> backup fl3 = None \<and>
          intercepted fl3 = False)"
proof -
  let ?d2 = "flow_state ''id-0'' PNone (fmupd ''address'' (PStr ''10.0.0.1'') fmempty)
                (fmupd ''address'' (PStr ''10.0.0.2'') fmempty) ''http'' True"
  have ne: "?d2 \<noteq> ex_state" by (simp add: ex_state_def flow_state_inject)
  have slot: "backup (ex_flow\<lparr>backup := Some 5, intercepted := True\<rparr>) = Some (length (heap ex_world))"
    by (simp add: ex_world_fields)
  have snap: "the_dict ex_edited (length (heap ex_world)) =
                Some (fmupd ''version'' (PInt (IVERSION ex_world)) ex_state)"
    by (simp add: ex_world_fields ex_edited_facts)
  have ver: "IVERSION ex_edited = IVERSION ex_world"
    by (simp add: ex_world_fields ex_edited_facts)
  show ?thesis
    using backup_revert_roundtrip[OF ex_flow_at ex_flow_fields(4) ex_world_state ex_state_ok
        ex_edited_facts(1) slot snap ver ex_edited_facts(3) ne]
    by (auto simp: ex_flow_at ex_flow_fields ex_world_state ex_state_ok ex_backed_facts
        ex_edited_facts ex_world_fields simp flip: ex_backed_def)
qed

lemma ex_reset_facts:
  "the_flow ex_reset 2 = Some (ex_flow\<lparr>backup := Some 5, intercepted := False\<rparr>)"
  "the_dict ex_reset 5 = Some (fmupd ''version'' (PInt 1) ex_state)"
  "StateObject_get_state ex_reset 2 False = Returned ex_state"
  "IVERSION ex_reset = 1"
proof -
  have lt: "2 < length (heap ex_edited)"
    using ex_edited_facts(1) by (rule the_flow_less)
  show "the_flow ex_reset 2 = Some (ex_flow\<lparr>backup := Some 5, intercepted := False\<rparr>)"
    using lt by (simp add: ex_reset_def the_flow_store)
  show "the_dict ex_reset 5 = Some (fmupd ''version'' (PInt 1) ex_state)"
    by (simp add: ex_reset_def the_dict_store_flow[OF ex_edited_facts(1)] ex_edited_facts)
  have "StateObject_get_state
          (store 2 (FlowO (ex_flow\<lparr>backup := Some 5, intercepted := True\<rparr>
                            \<lparr>intercepted := False\<rparr>)) ex_edited) 2 False =
        Returned (flow_state ''id-0'' PNone (fmupd ''address'' (PStr ''10.0.0.1'') fmempty)
                (fmupd ''address'' (PStr ''10.0.0.2'') fmempty) ''http'' False)"
    using ex_edited_facts(1) ex_edited_facts(3) by (rule state_set_intercepted)
  then show "StateObject_get_state ex_reset 2 False = Returned ex_state"
    by (simp add: ex_reset_def ex_state_def)
  show "IVERSION ex_reset = 1" by (simp add: ex_reset_def store_fields ex_edited_facts)
qed

lemma ex_reset_unmodified: "Flow_modified 2 ex_reset = Returned False"
  using Flow_modified_changed[OF ex_reset_facts(1), of 5 ex_state ex_state]
  by (simp add: ex_reset_facts ex_state_def) blast

lemma ex_edited_backup_noop: "Flow_backup False 2 ex_edited = (Returned (), ex_edited)"
proof -
  have bv: "backup_value ex_edited (ex_flow\<lparr>backup := Some 5, intercepted := True\<rparr>) =
              Returned (Some (fmupd ''version'' (PInt 1) ex_state))"
    by (simp add: backup_value_def ex_edited_facts)
  have tr: "truthy (Some (fmupd ''version'' (PInt 1) ex_state))"
    by (simp add: truthy_def fmupd_not_empty)
  show ?thesis using Flow_backup_present[OF ex_edited_facts(1) bv tr] .
qed

lemma ex_blank_facts:
  "the_flow ex_blank 2 = Some (ex_flow\<lparr>error := Some 5\<rparr>)"
  "the_error ex_blank 5 = Some \<lparr>flow = None, msg = None, timestamp = 1000\<rparr>"
  "lookup ex_blank 0 = lookup ex_world 0" "lookup ex_blank (Suc 0) = lookup ex_world (Suc 0)"
  "IVERSION ex_blank = 1" "length (heap ex_blank) = 6"
  by (simp_all add: ex_blank_def Error_init_def split_def heap_simps ex_world_fields ex_flow_at)

lemma ex_blank_state_eq: "StateObject_get_state ex_blank 2 False = Returned (ex_blank_state False)"
  by (subst StateObject_get_state_eq[OF ex_blank_facts(1)])
     (simp_all add: Conn_get_state_def ex_blank_facts ex_world_conns ex_flow_fields
        ex_blank_state_def)

lemma ex_blank_not_ok: "\<not> Flow_schema_ok (fmupd ''version'' v (ex_blank_state b))"
  by (simp add: ex_blank_state_def Flow_schema_ok_stamped Error_schema_ok_get_state)

lemma ex_blank_backed:
  "fst (Flow_backup False 2 ex_blank) = Returned ()"
  "the_flow (snd (Flow_backup False 2 ex_blank)) 2 = Some (ex_flow\<lparr>error := Some 5, backup := Some 6\<rparr>)"
  "the_dict (snd (Flow_backup False 2 ex_blank)) 6 =
     Some (fmupd ''version'' (PInt 1) (ex_blank_state False))"
  "StateObject_get_state (snd (Flow_backup False 2 ex_blank)) 2 False =
     Returned (ex_blank_state False)"
  "IVERSION (snd (Flow_backup False 2 ex_blank)) = 1"
  using Flow_backup_world[OF ex_blank_facts(1) _ ex_blank_state_eq, of False]
  by (simp_all add: ex_flow_fields ex_blank_facts)

lemma ex_blank_edited_facts:
  "the_flow ex_blank_edited 2 =
     Some (ex_flow\<lparr>error := Some 5, backup := Some 6, intercepted := True\<rparr>)"
  "the_dict ex_blank_edited 6 = Some (fmupd ''version'' (PInt 1) (ex_blank_state False))"
  "StateObject_get_state ex_blank_edited 2 False = Returned (ex_blank_state True)"
  "IVERSION ex_blank_edited = 1"
proof -
  have lt: "2 < length (heap (snd (Flow_backup False 2 ex_blank)))"
    using ex_blank_backed(2) by (rule the_flow_less)
  show "the_flow ex_blank_edited 2 =
     Some (ex_flow\<lparr>error := Some 5, backup := Some 6, intercepted := True\<rparr>)"
    using lt by (simp add: ex_blank_edited_def the_flow_store)
  show "the_dict ex_blank_edited 6 = Some (fmupd ''version'' (PInt 1) (ex_blank_state False))"
    by (simp add: ex_blank_edited_def the_dict_store_flow[OF ex_blank_backed(2)] ex_blank_backed)
  have "StateObject_get_state
          (store 2 (FlowO (ex_flow\<lparr>error := Some 5, backup := Some 6\<rparr>\<lparr>intercepted := True\<rparr>))
             (snd (Flow_backup False 2 ex_blank))) 2 False =
        Returned (flow_state ''id-0''
          (PDict (Error_get_state \<lparr>flow = None, msg = None, timestamp = 1000\<rparr>))
          (fmupd ''address'' (PStr ''10.0.0.1'') fmempty)
          (fmupd ''address'' (PStr ''10.0.0.2'') fmempty) ''http'' True)"
    using ex_blank_backed(2) ex_blank_backed(4)[unfolded ex_blank_state_def]
    by (rule state_set_intercepted)
  then show "StateObject_get_state ex_blank_edited 2 False = Returned (ex_blank_state True)"
    by (simp add: ex_blank_edited_def ex_blank_state_def)
  show "IVERSION ex_blank_edited = 1"
    by (simp add: ex_blank_edited_def store_fields ex_blank_backed)
qed

lemma ex_blank_revert: "Flow_revert 2 ex_blank_edited = (Raised SchemaError, ex_blank_edited)"
proof -
  let ?fl = "ex_flow\<lparr>error := Some 5, backup := Some 6, intercepted := True\<rparr>"
  let ?D = "fmupd ''version'' (PInt 1) (ex_blank_state False)"
  have bv: "backup_value ex_blank_edited ?fl = Returned (Some ?D)"
    by (simp add: backup_value_def ex_blank_edited_facts)
  have ld: "StateObject_load_state ?D 2 ex_blank_edited = (Raised SchemaError, ex_blank_edited)"
    by (simp add: StateObject_load_state_def ex_blank_edited_facts ex_blank_not_ok)
  show ?thesis
    by (simp add: Flow_revert_def ex_blank_edited_facts bv truthy_def fmupd_not_empty ld)
qed

lemma ex_blank_modified: "Flow_modified 2 ex_blank_edited = Returned True"
  using Flow_modified_changed[OF ex_blank_edited_facts(1), of 6 "ex_blank_state False"
      "ex_blank_state True"]
  by (simp add: ex_blank_edited_facts) (auto simp: ex_blank_state_def flow_state_inject)

text \<open>
  The round trip fails for the flows that the two conditions leave out. The flow at 2 of
  \<open>ex_edited\<close> already holds a backup (taken when \<^verbatim>\<open>intercepted\<close> was false) and has
  \<^verbatim>\<open>intercepted\<close> true: \<^verbatim>\<open>backup()\<close> returns without capturing, and after the mutation
  \<^verbatim>\<open>flow.intercepted = False\<close> the call \<^verbatim>\<open>modified()\<close> returns false. The flow at 2 of
  \<open>ex_blank\<close> has no backup, but its error has no message: \<^verbatim>\<open>backup()\<close> returns, and
  after the mutation \<^verbatim>\<open>flow.intercepted = True\<close> the call \<^verbatim>\<open>revert()\<close> raises the schema
  error of \<^verbatim>\<open>load_state\<close> and leaves the world as it was, so \<^verbatim>\<open>modified()\<close> is still
  true.
\<close>

theorem backup_revert_counterexample:
  "the_flow ex_edited 2 = Some (ex_flow\<lparr>backup := Some 5, intercepted := True\<rparr>) \<and>
   Flow_backup False 2 ex_edited = (Returned (), ex_edited) \<and>
   ex_reset = store 2 (FlowO (ex_flow\<lparr>backup := Some 5, intercepted := False\<rparr>)) ex_edited \<and>
   Flow_modified 2 ex_reset = Returned False \<and>
   the_flow ex_blank 2 = Some (ex_flow\<lparr>error := Some 5\<rparr>) \<and>
   backup (ex_flow\<lparr>error := Some 5\<rparr>) = None \<and>
   fst (Flow_backup False 2 ex_blank) = Returned () \<and>
   ex_blank_edited =
     store 2 (FlowO (ex_flow\<lparr>error := Some 5, backup := Some 6, intercepted := True\<rparr>))
       (snd (Flow_backup False 2 ex_blank)) \<and>
   Flow_revert 2 ex_blank_edited = (Raised SchemaError, ex_blank_edited) \<and>
   Flow_modified 2 ex_blank_edited = Returned True"
  by (simp add: ex_edited_facts ex_edited_backup_noop ex_reset_unmodified ex_blank_facts
      ex_flow_fields ex_blank_backed ex_blank_revert ex_blank_modified
      flip: ex_reset_def ex_blank_edited_def)

section \<open>copy and equality\<close>

lemma Flow_copy_effect:
  assumes fl: "the_flow w f = Some fl" and ok: "Flow_ok w fl"
  defines "n \<equiv> length (heap w)"
  shows "fst (Flow_copy f w) = Returned n"
    and "the_flow (snd (Flow_copy f w)) n =
           Some (fl\<lparr>flow_id := uuids w (draws w), live := LiveBool False,
                     client_conn := Suc n, server_conn := Suc (Suc n),
                     error := (case error fl of None \<Rightarrow> None
                               | Some _ \<Rightarrow> Some (Suc (Suc (Suc n))))\<rparr>)"
    and "lookup (snd (Flow_copy f w)) (Suc n) = lookup w (client_conn fl)"
    and "lookup (snd (Flow_copy f w)) (Suc (Suc n)) = lookup w (server_conn fl)"
    and "\<forall>e. error fl = Some e \<longrightarrow>
           the_error (snd (Flow_copy f w)) (Suc (Suc (Suc n))) = the_error w e \<and> e < n"
    and "\<forall>a. a < n \<longrightarrow> lookup (snd (Flow_copy f w)) a = lookup w a"
    and "trace (snd (Flow_copy f w)) = trace w"
    and "f < n" and "client_conn fl < n" and "server_conn fl < n"
proof -
  from ok obtain c s where c: "lookup w (client_conn fl) = Some (ClientConnO c)"
    and s: "lookup w (server_conn fl) = Some (ServerConnO s)"
    and e: "error fl = None \<or> (\<exists>e er. error fl = Some e \<and> the_error w e = Some er)"
    by (rule Flow_ok_D)
  let ?fl3 = "fl\<lparr>flow_id := uuids w (draws w), live := LiveBool False,
                  client_conn := Suc n, server_conn := Suc (Suc n)\<rparr>"
  from Flow_copy_steps[OF fl c s, folded n_def]
  obtain w7 where eq: "Flow_copy f w =
    (case error fl of None \<Rightarrow> (Returned n, w7)
     | Some e \<Rightarrow> (case Error_copy e w7 of (Raised x, w8) \<Rightarrow> (Raised x, w8)
         | (Returned ec, w8) \<Rightarrow> (Returned n, store n (FlowO (?fl3\<lparr>error := Some ec\<rparr>)) w8)))"
    and len: "length (heap w7) = Suc (Suc (Suc n))"
    and l7: "lookup w7 n = Some (FlowO ?fl3)" "lookup w7 (Suc n) = Some (ClientConnO c)"
      "lookup w7 (Suc (Suc n)) = Some (ServerConnO s)"
      "\<forall>a. a < n \<longrightarrow> lookup w7 a = lookup w a"
    and t7: "trace w7 = trace w"
    by blast
  show lt: "f < n" using fl unfolding n_def by (rule the_flow_less)
  show "client_conn fl < n" "server_conn fl < n"
    using c s unfolding n_def by (auto dest: lookup_Some_less)
  from e show "fst (Flow_copy f w) = Returned n"
    and "the_flow (snd (Flow_copy f w)) n =
           Some (fl\<lparr>flow_id := uuids w (draws w), live := LiveBool False,
                     client_conn := Suc n, server_conn := Suc (Suc n),
                     error := (case error fl of None \<Rightarrow> None
                               | Some _ \<Rightarrow> Some (Suc (Suc (Suc n))))\<rparr>)"
    and "lookup (snd (Flow_copy f w)) (Suc n) = lookup w (client_conn fl)"
    and "lookup (snd (Flow_copy f w)) (Suc (Suc n)) = lookup w (server_conn fl)"
    and "\<forall>e. error fl = Some e \<longrightarrow>
           the_error (snd (Flow_copy f w)) (Suc (Suc (Suc n))) = the_error w e \<and> e < n"
    and "\<forall>a. a < n \<longrightarrow> lookup (snd (Flow_copy f w)) a = lookup w a"
    and "trace (snd (Flow_copy f w)) = trace w"
  proof (atomize (full), elim disjE exE conjE, goal_cases)
    case 1
    then show ?case
      using l7 t7 c s by (simp add: eq the_flow_def)
  next
    case (2 a er)
    have an: "a < n" using 2(2) the_error_less unfolding n_def by blast
    have e7: "the_error w7 a = Some er" using l7(4) an 2(2) by (simp add: the_error_def)
    have ec: "Error_copy a w7 = (Returned (Suc (Suc (Suc n))), snd (alloc (ErrorO er) w7))"
      by (simp add: Error_copy_def e7 split_def fst_alloc len)
    show ?case
      using l7 t7 c s an 2
      by (simp add: eq ec heap_simps len the_flow_def the_error_def)
  qed
qed

text \<open>
  C3, as the code has it. On a flow whose connections are connection objects and whose
  error, if set, is an Error, \<^verbatim>\<open>copy()\<close> returns a new flow object. Its
  \<^verbatim>\<open>client_conn\<close>, \<^verbatim>\<open>server_conn\<close> and, if the original has one, \<^verbatim>\<open>error\<close> are new
  objects (at addresses beyond the old store) with the contents of the original's, and no
  object of the old store is changed. The backup slot and the reply continuation are
  copied as references: the copy refers to the same backup mapping and the same reply
  object as the original.
\<close>

theorem copy_shares_backup_and_reply:
  assumes "the_flow w f = Some fl" and "Flow_ok w fl"
  shows "fst (Flow_copy f w) = Returned (length (heap w)) \<and>
         (\<exists>fl'. the_flow (snd (Flow_copy f w)) (length (heap w)) = Some fl' \<and>
            client_conn fl' = Suc (length (heap w)) \<and> client_conn fl < length (heap w) \<and>
            server_conn fl' = Suc (Suc (length (heap w))) \<and> server_conn fl < length (heap w) \<and>
            error fl' = (case error fl of None \<Rightarrow> None
                         | Some _ \<Rightarrow> Some (Suc (Suc (Suc (length (heap w)))))) \<and>
            backup fl' = backup fl \<and> reply fl' = reply fl) \<and>
         lookup (snd (Flow_copy f w)) (Suc (length (heap w))) = lookup w (client_conn fl) \<and>
         lookup (snd (Flow_copy f w)) (Suc (Suc (length (heap w)))) = lookup w (server_conn fl) \<and>
         (\<forall>e. error fl = Some e \<longrightarrow>
            the_error (snd (Flow_copy f w)) (Suc (Suc (Suc (length (heap w))))) = the_error w e \<and>
            e < length (heap w)) \<and>
         (\<forall>a. a < length (heap w) \<longrightarrow> lookup (snd (Flow_copy f w)) a = lookup w a)"
  using Flow_copy_effect[OF assms] by simp

lemma ex_backed_conns:
  "lookup ex_backed 0 = lookup ex_world 0" "lookup ex_backed (Suc 0) = lookup ex_world (Suc 0)"
  using Flow_backup_world(8)[OF ex_flow_at ex_flow_fields(4) ex_world_state, of False]
  by (simp_all add: ex_world_fields flip: ex_backed_def)

lemma ex_backed_ok: "Flow_ok ex_backed (ex_flow\<lparr>backup := Some 5\<rparr>)"
  by (simp add: Flow_ok_def ex_flow_fields ex_backed_conns ex_world_conns)

theorem copy_shares_backup_and_reply_witness:
  "the_flow ex_backed 2 = Some (ex_flow\<lparr>backup := Some 5\<rparr>) \<and>
   Flow_ok ex_backed (ex_flow\<lparr>backup := Some 5\<rparr>) \<and>
   fst (Flow_copy 2 ex_backed) = Returned 6 \<and>
   (\<exists>fl'. the_flow (snd (Flow_copy 2 ex_backed)) 6 = Some fl' \<and>
      client_conn fl' = 7 \<and> server_conn fl' = 8 \<and> error fl' = None \<and>
      backup fl' = Some 5 \<and> reply fl' = Some 3) \<and>
   lookup (snd (Flow_copy 2 ex_backed)) 7 = lookup ex_backed 0 \<and>
   lookup (snd (Flow_copy 2 ex_backed)) 8 = lookup ex_backed 1"
  using copy_shares_backup_and_reply[OF ex_backed_facts(1) ex_backed_ok]
  by (auto simp: ex_backed_facts ex_backed_ok ex_flow_fields)

text \<open>
  The claim that the copy shares no object with the original fails on the flow at 2 of
  \<open>ex_backed\<close>: its backup slot refers to the mapping at 5 and its reply to the object
  at 3, and the copy at 6 refers to the same two objects.
\<close>

theorem copy_aliasing_counterexample:
  "map_option backup (the_flow ex_backed 2) = Some (Some 5) \<and>
   map_option reply (the_flow ex_backed 2) = Some (Some 3) \<and>
   fst (Flow_copy 2 ex_backed) = Returned 6 \<and>
   map_option backup (the_flow (snd (Flow_copy 2 ex_backed)) 6) = Some (Some 5) \<and>
   map_option reply (the_flow (snd (Flow_copy 2 ex_backed)) 6) = Some (Some 3)"
  using Flow_copy_effect(1,2)[OF ex_backed_facts(1) ex_backed_ok]
  by (simp add: ex_backed_facts ex_flow_fields)

lemma ex_world_ok: "Flow_ok ex_world ex_flow"
  by (simp add: Flow_ok_def ex_flow_fields ex_world_conns)









end
